theory Spec2Isabelle
  imports Main "HOL-Library.AList" "HOL-Library.Sublist"
begin

chapter \<open>A shallow embedding of the CRM's server code\<close>

text \<open>
  The development follows the TypeScript sources: the role helpers of
  \<^verbatim>\<open>server/_core/rbac.ts\<close> and \<^verbatim>\<open>server/_core/security-helpers.ts\<close>, the
  app-settings service, the \<^verbatim>\<open>leads.create\<close> and \<^verbatim>\<open>campaigns.launch\<close>
  mutations, the inbound message handler and the connection handler of the Baileys
  service. Database tables are lists of rows in insertion order, each with the counter
  of its AUTO_INCREMENT key; an exception is the \<open>Inl\<close> of a sum; \<open>new Date()\<close> is a
  parameter \<open>now\<close>.
\<close>

section \<open>JavaScript values\<close>

text \<open>
  Strings are lists of code units. The model carries the code units below 256 (HOL's
  \<open>char\<close>), which covers every literal of the sources. \<open>String.prototype.trim\<close> removes
  the white space and line terminators of ECMAScript at both ends; the ones below 256
  are TAB, LF, VT, FF, CR, SP and NBSP.
\<close>

definition isWhiteSpace :: "char \<Rightarrow> bool" where
  "isWhiteSpace c \<longleftrightarrow>
     c = CHR 0x09 \<or> c = CHR 0x0A \<or> c = CHR 0x0B \<or> c = CHR 0x0C \<or> c = CHR 0x0D \<or>
     c = CHR 0x20 \<or> c = CHR 0xA0"

definition trim :: "string \<Rightarrow> string" where
  "trim s = rev (dropWhile isWhiteSpace (rev (dropWhile isWhiteSpace s)))"

text \<open>\<open>s.includes(t)\<close>: \<open>t\<close> occurs in \<open>s\<close> as a contiguous substring.\<close>

fun includes_str :: "string \<Rightarrow> string \<Rightarrow> bool" where
  "includes_str [] t = (t = [])"
| "includes_str (c # s) t = (prefix t (c # s) \<or> includes_str s t)"

text \<open>
  Reading a property \<open>obj[k]\<close> of a plain object looks at the object's own properties
  and then at \<open>Object.prototype\<close>. An object literal and an object parsed from JSON both
  have that prototype, so \<open>obj["constructor"]\<close> is a function when the object has no own
  property of that name. The own properties are an association list; the inherited
  members carry no data the sources use, so one constructor stands for all of them.
\<close>

definition objectPrototypeKeys :: "string list" where
  "objectPrototypeKeys =
     [''constructor'', ''__defineGetter__'', ''__defineSetter__'', ''hasOwnProperty'',
      ''__lookupGetter__'', ''__lookupSetter__'', ''isPrototypeOf'',
      ''propertyIsEnumerable'', ''toString'', ''valueOf'', ''__proto__'',
      ''toLocaleString'']"

datatype 'a property = Own 'a | Inherited | Undefined

definition getProperty :: "(string \<times> 'a) list \<Rightarrow> string \<Rightarrow> 'a property" where
  "getProperty obj k =
     (case map_of obj k of
        Some v \<Rightarrow> Own v
      | None \<Rightarrow> if k \<in> set objectPrototypeKeys then Inherited else Undefined)"

text \<open>\<open>Object.prototype.hasOwnProperty.call(obj, k)\<close>.\<close>

definition hasOwnProperty :: "(string \<times> 'a) list \<Rightarrow> string \<Rightarrow> bool" where
  "hasOwnProperty obj k \<longleftrightarrow> map_of obj k \<noteq> None"

section \<open>Role resolution\<close>

subsection \<open>\<^verbatim>\<open>computeEffectiveRole\<close> (server/_core/rbac.ts)\<close>

type_synonym permissionsMatrix = "(string \<times> string list) list"

definition BUILTIN_RANK :: "(string \<times> nat) list" where
  "BUILTIN_RANK =
     [(''viewer'', 0), (''agent'', 1), (''supervisor'', 2), (''admin'', 3), (''owner'', 4)]"

record roleArgs =
  baseRole :: string
  customRole :: "string option"
  permissionsMatrix :: permissionsMatrix

text \<open>
  \<open>customRank > baseRank\<close> is evaluated only when \<open>customRank\<close> is a number. When
  \<open>baseRank\<close> is an inherited member (a function or an object) it converts to NaN and
  the comparison is false; \<open>??\<close> replaces only \<open>undefined\<close>.
\<close>

definition escalates :: "nat property \<Rightarrow> nat property \<Rightarrow> bool" where
  "escalates customRank baseRank =
     (case customRank of
        Own c \<Rightarrow> (case baseRank of Own b \<Rightarrow> c > b | _ \<Rightarrow> False)
      | _ \<Rightarrow> False)"

definition isNumber :: "nat property \<Rightarrow> bool" where
  "isNumber r = (case r of Own _ \<Rightarrow> True | _ \<Rightarrow> False)"

definition computeEffectiveRole :: "roleArgs \<Rightarrow> string" where
  "computeEffectiveRole args =
     (let base = trim (if baseRole args = [] then ''agent'' else baseRole args) in
      if base = ''owner'' then ''owner''
      else
        let custom = trim (case customRole args of None \<Rightarrow> [] | Some c \<Rightarrow> c) in
        if custom = [] then base
        else if \<not> hasOwnProperty (permissionsMatrix args) custom then base
        else if custom = ''owner'' then base
        else
          let baseRank = (case getProperty BUILTIN_RANK base of Undefined \<Rightarrow> Own 0 | r \<Rightarrow> r);
              customRank = getProperty BUILTIN_RANK custom
          in
            if isNumber customRank \<and> escalates customRank baseRank then base
            else if \<not> isNumber customRank \<and> base \<noteq> ''admin'' then base
            else custom)"

subsection \<open>\<^verbatim>\<open>validateCustomRole\<close> and \<^verbatim>\<open>getEffectiveRole\<close> (server/_core/security-helpers.ts)\<close>

definition RESERVED_SYSTEM_ROLES :: "string list" where
  "RESERVED_SYSTEM_ROLES = [''owner'', ''admin'', ''supervisor'', ''agent'', ''viewer'']"

record validation =
  valid :: bool
  error :: "string option"

text \<open>
  \<open>!permissionsMatrix[trimmed]\<close> reads the property through the prototype chain: an own
  entry is an array and an inherited member is a function or an object, both truthy;
  only \<open>undefined\<close> is falsy.
\<close>

definition truthyProperty :: "'a property \<Rightarrow> bool" where
  "truthyProperty p = (case p of Undefined \<Rightarrow> False | _ \<Rightarrow> True)"

definition validateCustomRole :: "string option \<Rightarrow> permissionsMatrix \<Rightarrow> validation" where
  "validateCustomRole customRole' matrix =
     (case customRole' of
        None \<Rightarrow> \<lparr>valid = True, error = None\<rparr>
      | Some c \<Rightarrow>
          if c = [] then \<lparr>valid = True, error = None\<rparr>
          else
            let trimmed = trim c in
            if trimmed \<in> set RESERVED_SYSTEM_ROLES then
              \<lparr>valid = False,
               error = Some ''Cannot assign reserved system roles (owner, admin, supervisor, agent, viewer) as customRole''\<rparr>
            else if \<not> truthyProperty (getProperty matrix trimmed) then
              \<lparr>valid = False,
               error = Some (''Invalid customRole: '' @ [CHR 0x27] @ trimmed @ [CHR 0x27] @
                             '' not found in permissions matrix'')\<rparr>
            else \<lparr>valid = True, error = None\<rparr>)"

definition getEffectiveRole :: "string \<Rightarrow> string option \<Rightarrow> permissionsMatrix \<Rightarrow> string" where
  "getEffectiveRole baseRole' customRole' matrix =
     (if baseRole' = ''owner'' then ''owner''
      else
        case customRole' of
          None \<Rightarrow> baseRole'
        | Some c \<Rightarrow>
            if c = [] then baseRole'
            else if \<not> valid (validateCustomRole customRole' matrix) then baseRole'
            else c)"

subsection \<open>What role resolution guarantees\<close>

text \<open>The local variables \<open>base\<close> and \<open>custom\<close> of \<^verbatim>\<open>computeEffectiveRole\<close>.\<close>

definition base_of :: "roleArgs \<Rightarrow> string" where
  "base_of args = trim (if baseRole args = [] then ''agent'' else baseRole args)"

definition custom_of :: "roleArgs \<Rightarrow> string" where
  "custom_of args = trim (case customRole args of None \<Rightarrow> [] | Some c \<Rightarrow> c)"

lemma computeEffectiveRole_result:
  "computeEffectiveRole args = base_of args \<or>
   (computeEffectiveRole args = custom_of args \<and> custom_of args \<noteq> ''owner'' \<and>
    base_of args \<noteq> ''owner'' \<and> hasOwnProperty (permissionsMatrix args) (custom_of args))"
  by (simp add: computeEffectiveRole_def base_of_def custom_of_def Let_def)

lemma computeEffectiveRole_owner_iff:
  "computeEffectiveRole args = ''owner'' \<longleftrightarrow> base_of args = ''owner''"
  by (simp add: computeEffectiveRole_def base_of_def Let_def)

lemma computeEffectiveRole_absent_from_matrix:
  "\<not> hasOwnProperty (permissionsMatrix args) (custom_of args) \<Longrightarrow>
   computeEffectiveRole args = base_of args"
  by (simp add: computeEffectiveRole_def base_of_def custom_of_def Let_def)

text \<open>
  A built-in custom role of a higher rank than the base role is refused, for every base
  role that is not the name of a member of \<open>Object.prototype\<close> (a base role outside the
  table counts as rank 0).
\<close>

lemma computeEffectiveRole_builtin_escalation:
  assumes "map_of BUILTIN_RANK (custom_of args) = Some c"
      and "base_of args \<notin> set objectPrototypeKeys"
      and "c > (case map_of BUILTIN_RANK (base_of args) of Some b \<Rightarrow> b | None \<Rightarrow> 0)"
    shows "computeEffectiveRole args = base_of args"
  using assms
  by (auto simp add: computeEffectiveRole_def base_of_def custom_of_def Let_def
        getProperty_def isNumber_def escalates_def split: option.splits)

lemma computeEffectiveRole_custom_needs_admin:
  assumes "computeEffectiveRole args \<noteq> base_of args"
      and "map_of BUILTIN_RANK (custom_of args) = None"
    shows "base_of args = ''admin'' \<and> computeEffectiveRole args = custom_of args"
  using assms
  by (auto simp add: computeEffectiveRole_def base_of_def custom_of_def Let_def
        getProperty_def isNumber_def escalates_def split: option.splits if_splits)

lemma getEffectiveRole_owner_iff:
  "getEffectiveRole b c m = ''owner'' \<longleftrightarrow> b = ''owner''"
  by (auto simp add: getEffectiveRole_def validateCustomRole_def Let_def
        RESERVED_SYSTEM_ROLES_def trim_def isWhiteSpace_def split: option.splits if_splits)

lemma getEffectiveRole_reserved:
  "trim c \<in> set RESERVED_SYSTEM_ROLES \<Longrightarrow> getEffectiveRole b (Some c) m = b"
  by (auto simp add: getEffectiveRole_def validateCustomRole_def Let_def)

lemma getEffectiveRole_unknown:
  "map_of m (trim c) = None \<Longrightarrow> trim c \<notin> set objectPrototypeKeys \<Longrightarrow>
   getEffectiveRole b (Some c) m = b"
  by (auto simp add: getEffectiveRole_def validateCustomRole_def Let_def getProperty_def
        truthyProperty_def)

text \<open>
  Claim C9 (role resolution never escalates privilege; \<^verbatim>\<open>getEffectiveRole\<close> falls back
  to the base role for any reserved or unknown custom role). The lemmas above are the
  parts of it that the code keeps. The fallback for an unknown custom role is missed
  when the custom role is the name of a member of \<open>Object.prototype\<close>:
  \<^verbatim>\<open>validateCustomRole\<close> tests \<open>!permissionsMatrix[trimmed]\<close>, which the inherited member
  makes false, so a custom role that no permissions matrix defines is returned as the
  effective role. Here the matrix is empty, the base role is \<open>agent\<close> and the custom
  role is \<open>constructor\<close>. \<^verbatim>\<open>computeEffectiveRole\<close> tests the same membership with
  \<open>hasOwnProperty\<close> and returns the base role on the same input.
\<close>

theorem getEffectiveRole_inherited_member:
  "getEffectiveRole ''agent'' (Some ''constructor'') [] = ''constructor'' \<and>
   valid (validateCustomRole (Some ''constructor'') []) \<and>
   computeEffectiveRole \<lparr>baseRole = ''agent'', customRole = Some ''constructor'',
                          permissionsMatrix = []\<rparr> = ''agent''"
  by code_simp

section \<open>Sanitising the application settings\<close>

text \<open>
  The settings row is a JSON object: the columns, and in the JSON columns the
  configuration objects. Numbers are integers here (no settings field the code looks
  at is a number). An object is the association list of its own properties;
  \<open>AList.update\<close> is the assignment \<open>obj[k] = v\<close> (the property keeps its place when it
  exists, and is appended otherwise), \<open>AList.delete\<close> the rest pattern \<open>{ k, ...rest }\<close>.
\<close>

datatype json =
    JNull | JBool bool | JNum int | JStr string | JArr "json list"
  | JObj "(string \<times> json) list"

type_synonym jsobject = "(string \<times> json) list"

text \<open>JavaScript truthiness.\<close>

fun truthy :: "json \<Rightarrow> bool" where
  "truthy JNull = False"
| "truthy (JBool b) = b"
| "truthy (JNum n) = (n \<noteq> 0)"
| "truthy (JStr s) = (s \<noteq> [])"
| "truthy (JArr _) = True"
| "truthy (JObj _) = True"

text \<open>
  \<open>v?.k\<close> for the keys the code reads (\<open>pass\<close>, \<open>apiKey\<close>, \<open>secretKey\<close> and the flags):
  \<open>undefined\<close> (here \<open>None\<close>) when \<open>v\<close> is \<open>null\<close> or \<open>undefined\<close>, and also when \<open>v\<close> is
  a string, a number, a boolean or an array, none of which has such a property.
\<close>

definition optionalField :: "json option \<Rightarrow> string \<Rightarrow> json option" where
  "optionalField v k = (case v of Some (JObj cfg) \<Rightarrow> map_of cfg k | _ \<Rightarrow> None)"

text \<open>
  One block of \<^verbatim>\<open>sanitizeAppSettings\<close> (server/_core/security-helpers.ts):
  \<^verbatim>\<open>if (sanitized.C?.S) { const { S, ...rest } = sanitized.C; sanitized.C = { ...rest, F: true }; }\<close>
  The function has four of them, for the configuration \<open>C\<close>, the secret \<open>S\<close> and the
  flag \<open>F\<close>.
\<close>

definition removeSecret :: "string \<Rightarrow> string \<Rightarrow> string \<Rightarrow> jsobject \<Rightarrow> jsobject" where
  "removeSecret config secret flag sanitized =
     (case optionalField (map_of sanitized config) secret of
        None \<Rightarrow> sanitized
      | Some v \<Rightarrow>
          if truthy v then
            (case map_of sanitized config of
               Some (JObj cfg) \<Rightarrow>
                 (let rest = AList.delete secret cfg in
                  AList.update config (JObj (AList.update flag (JBool True) rest)) sanitized)
             | _ \<Rightarrow> sanitized)
          else sanitized)"

text \<open>\<open>None\<close> is \<open>null\<close> or \<open>undefined\<close>; an object is always truthy.\<close>

definition sanitizeAppSettings :: "jsobject option \<Rightarrow> jsobject option" where
  "sanitizeAppSettings settings =
     (case settings of
        None \<Rightarrow> None
      | Some s \<Rightarrow>
          (let sanitized = s;
               sanitized = removeSecret ''smtpConfig'' ''pass'' ''hasPassword'' sanitized;
               sanitized = removeSecret ''aiConfig'' ''apiKey'' ''hasApiKey'' sanitized;
               sanitized = removeSecret ''mapsConfig'' ''apiKey'' ''hasApiKey'' sanitized;
               sanitized = removeSecret ''storageConfig'' ''secretKey'' ''hasSecretKey'' sanitized
           in Some sanitized))"

subsection \<open>What the sanitiser removes and what it keeps\<close>

text \<open>
  The secret of a configuration as the guard reads it, \<open>settings.C?.S\<close>, and whether it
  is truthy.
\<close>

definition secretOf :: "jsobject \<Rightarrow> string \<Rightarrow> string \<Rightarrow> json option" where
  "secretOf s config secret = optionalField (map_of s config) secret"

definition hasSecret :: "jsobject \<Rightarrow> string \<Rightarrow> string \<Rightarrow> bool" where
  "hasSecret s config secret =
     (case secretOf s config secret of Some v \<Rightarrow> truthy v | None \<Rightarrow> False)"

lemma removeSecret_other:
  "k \<noteq> config \<Longrightarrow> map_of (removeSecret config secret flag s) k = map_of s k"
  by (simp add: removeSecret_def update_conv' Let_def split: option.splits json.splits)

lemma removeSecret_unchanged:
  "\<not> hasSecret s config secret \<Longrightarrow> removeSecret config secret flag s = s"
  by (auto simp add: removeSecret_def hasSecret_def secretOf_def split: option.splits)

lemma removeSecret_masked:
  assumes "hasSecret s config secret" and "flag \<noteq> secret"
  shows "optionalField (map_of (removeSecret config secret flag s) config) k =
           (if k = secret then None else if k = flag then Some (JBool True)
            else optionalField (map_of s config) k)"
  using assms
  by (auto simp add: removeSecret_def hasSecret_def secretOf_def optionalField_def
        update_conv' delete_conv' Let_def split: option.splits json.splits)

text \<open>The four configurations with their secret and the flag that replaces it.\<close>

definition secretFields :: "(string \<times> string \<times> string) list" where
  "secretFields =
     [(''smtpConfig'', ''pass'', ''hasPassword''), (''aiConfig'', ''apiKey'', ''hasApiKey''),
      (''mapsConfig'', ''apiKey'', ''hasApiKey''), (''storageConfig'', ''secretKey'', ''hasSecretKey'')]"

text \<open>
  \<open>maskedIn s r C S F\<close>: how configuration \<open>C\<close> of the result \<open>r\<close> relates to the one of
  the input \<open>s\<close>.
\<close>

definition maskedIn :: "jsobject \<Rightarrow> jsobject \<Rightarrow> string \<Rightarrow> string \<Rightarrow> string \<Rightarrow> bool" where
  "maskedIn s r config secret flag \<longleftrightarrow>
     (if hasSecret s config secret
      then \<forall>k. optionalField (map_of r config) k =
                 (if k = secret then None else if k = flag then Some (JBool True)
                  else optionalField (map_of s config) k)
      else map_of r config = map_of s config)"


lemma maskedIn_through:
  "map_of r' config = map_of r config \<Longrightarrow> map_of s' config = map_of s config \<Longrightarrow>
   maskedIn s' r config secret flag \<Longrightarrow> maskedIn s r' config secret flag"
  by (simp add: maskedIn_def hasSecret_def secretOf_def)

lemma removeSecret_maskedIn:
  "flag \<noteq> secret \<Longrightarrow> maskedIn s (removeSecret config secret flag s) config secret flag"
  by (simp add: maskedIn_def removeSecret_masked removeSecret_unchanged)

text \<open>
  Claim C10, as the code has it. For \<open>null\<close> or \<open>undefined\<close> the result is \<open>null\<close>. For a
  settings object the result is an object in which every field other than the four
  configurations is unchanged, and for each configuration (\<open>maskedIn\<close>): when its
  secret is present and truthy, the secret is absent from the result, the flag is
  \<open>true\<close> and every other field of the configuration is unchanged; otherwise the
  configuration is returned unchanged, the secret field included when it is present
  with a falsy value.
\<close>

theorem sanitizeAppSettings_masks:
  "sanitizeAppSettings None = None \<and>
   (\<exists>r. sanitizeAppSettings (Some s) = Some r \<and>
        (\<forall>k. k \<notin> fst ` set secretFields \<longrightarrow> map_of r k = map_of s k) \<and>
        (\<forall>(config, secret, flag) \<in> set secretFields. maskedIn s r config secret flag))"
proof -
  define s1 where "s1 = removeSecret ''smtpConfig'' ''pass'' ''hasPassword'' s"
  define s2 where "s2 = removeSecret ''aiConfig'' ''apiKey'' ''hasApiKey'' s1"
  define s3 where "s3 = removeSecret ''mapsConfig'' ''apiKey'' ''hasApiKey'' s2"
  define s4 where "s4 = removeSecret ''storageConfig'' ''secretKey'' ''hasSecretKey'' s3"
  have r: "sanitizeAppSettings (Some s) = Some s4"
    by (simp add: sanitizeAppSettings_def s1_def s2_def s3_def s4_def)
  have other: "map_of s4 k = map_of s k" if "k \<notin> fst ` set secretFields" for k
    using that by (simp add: secretFields_def s1_def s2_def s3_def s4_def removeSecret_other)
  have m1: "maskedIn s s4 ''smtpConfig'' ''pass'' ''hasPassword''"
  proof (rule maskedIn_through [where r = s1 and s' = s])
    show "map_of s4 ''smtpConfig'' = map_of s1 ''smtpConfig''"
      by (simp add: s2_def s3_def s4_def removeSecret_other)
    show "maskedIn s s1 ''smtpConfig'' ''pass'' ''hasPassword''"
      unfolding s1_def by (rule removeSecret_maskedIn) simp
  qed simp
  have m2: "maskedIn s s4 ''aiConfig'' ''apiKey'' ''hasApiKey''"
  proof (rule maskedIn_through [where r = s2 and s' = s1])
    show "map_of s4 ''aiConfig'' = map_of s2 ''aiConfig''"
      by (simp add: s3_def s4_def removeSecret_other)
    show "map_of s1 ''aiConfig'' = map_of s ''aiConfig''"
      by (simp add: s1_def removeSecret_other)
    show "maskedIn s1 s2 ''aiConfig'' ''apiKey'' ''hasApiKey''"
      unfolding s2_def by (rule removeSecret_maskedIn) simp
  qed
  have m3: "maskedIn s s4 ''mapsConfig'' ''apiKey'' ''hasApiKey''"
  proof (rule maskedIn_through [where r = s3 and s' = s2])
    show "map_of s4 ''mapsConfig'' = map_of s3 ''mapsConfig''"
      by (simp add: s4_def removeSecret_other)
    show "map_of s2 ''mapsConfig'' = map_of s ''mapsConfig''"
      by (simp add: s1_def s2_def removeSecret_other)
    show "maskedIn s2 s3 ''mapsConfig'' ''apiKey'' ''hasApiKey''"
      unfolding s3_def by (rule removeSecret_maskedIn) simp
  qed
  have m4: "maskedIn s s4 ''storageConfig'' ''secretKey'' ''hasSecretKey''"
  proof (rule maskedIn_through [where r = s4 and s' = s3])
    show "map_of s3 ''storageConfig'' = map_of s ''storageConfig''"
      by (simp add: s1_def s2_def s3_def removeSecret_other)
    show "maskedIn s3 s4 ''storageConfig'' ''secretKey'' ''hasSecretKey''"
      unfolding s4_def by (rule removeSecret_maskedIn) simp
  qed simp
  show ?thesis
    using r other m1 m2 m3 m4 by (simp add: sanitizeAppSettings_def secretFields_def)
qed

text \<open>
  The theorem at a settings row with a company name and an SMTP configuration that
  holds a host and a password.
\<close>

theorem sanitizeAppSettings_masks_witness:
  "\<exists>r. sanitizeAppSettings
          (Some [(''companyName'', JStr ''Acme''),
                 (''smtpConfig'', JObj [(''host'', JStr ''mail''), (''pass'', JStr ''x'')])]) = Some r \<and>
        optionalField (map_of r ''smtpConfig'') ''pass'' = None \<and>
        optionalField (map_of r ''smtpConfig'') ''hasPassword'' = Some (JBool True) \<and>
        optionalField (map_of r ''smtpConfig'') ''host'' = Some (JStr ''mail'') \<and>
        map_of r ''companyName'' = Some (JStr ''Acme'')"
proof -
  let ?s = "[(''companyName'', JStr ''Acme''),
             (''smtpConfig'', JObj [(''host'', JStr ''mail''), (''pass'', JStr ''x'')])]"
  from sanitizeAppSettings_masks [of ?s] obtain r
    where r: "sanitizeAppSettings (Some ?s) = Some r"
      and other: "\<forall>k. k \<notin> fst ` set secretFields \<longrightarrow> map_of r k = map_of ?s k"
      and masked: "\<forall>(config, secret, flag) \<in> set secretFields. maskedIn ?s r config secret flag"
    by blast
  have secret: "hasSecret ?s ''smtpConfig'' ''pass''"
    by (simp add: hasSecret_def secretOf_def optionalField_def)
  from masked have "maskedIn ?s r ''smtpConfig'' ''pass'' ''hasPassword''"
    by (simp add: secretFields_def)
  with secret have smtp: "\<forall>k. optionalField (map_of r ''smtpConfig'') k =
      (if k = ''pass'' then None else if k = ''hasPassword'' then Some (JBool True)
       else optionalField (map_of ?s ''smtpConfig'') k)"
    by (simp add: maskedIn_def)
  from other have name: "map_of r ''companyName'' = Some (JStr ''Acme'')"
    by (simp add: secretFields_def)
  from smtp have "optionalField (map_of r ''smtpConfig'') ''pass'' = None"
    and "optionalField (map_of r ''smtpConfig'') ''hasPassword'' = Some (JBool True)"
    and "optionalField (map_of r ''smtpConfig'') ''host'' = Some (JStr ''mail'')"
    by (simp_all add: optionalField_def)
  with r name show ?thesis by blast
qed

text \<open>
  Claim C10 as the specification words it says that the secret fields are absent from
  the result for every settings object. The guard \<open>if (sanitized.smtpConfig?.pass)\<close>
  skips a secret that is present with a falsy value: an empty password stays in the
  result, and no flag is set.
\<close>

theorem sanitizeAppSettings_keeps_falsy_secret:
  "sanitizeAppSettings (Some [(''smtpConfig'', JObj [(''pass'', JStr [])])]) =
     Some [(''smtpConfig'', JObj [(''pass'', JStr [])])]"
  by code_simp

section \<open>The database\<close>

text \<open>
  A table is the list of its rows in insertion order, with the last value of its
  AUTO_INCREMENT key. Columns that no modelled statement reads or writes are left out.
  A timestamp is a number; \<open>None\<close> in a column is SQL's NULL, or a column left to its
  default by the insert. The enum columns hold the strings the code writes.
\<close>

type_synonym timestamp = nat

record lead =
  lead_id :: nat
  lead_name :: string
  lead_phone :: string
  lead_email :: "string option"
  lead_country :: string
  lead_source :: "string option"
  lead_notes :: "string option"
  lead_customFields :: "jsobject option"
  lead_value :: "string option"
  lead_commission :: "string option"
  lead_assignedToId :: "nat option"
  lead_whatsappNumberId :: "nat option"
  lead_pipelineStageId :: "nat option"
  lead_kanbanOrder :: int
  lead_createdAt :: "timestamp option"
  lead_updatedAt :: "timestamp option"
  lead_lastContactedAt :: "timestamp option"

record conversation =
  conv_id :: nat
  conv_channel :: string
  conv_whatsappNumberId :: "nat option"
  conv_leadId :: "nat option"
  conv_contactPhone :: string
  conv_contactName :: string
  conv_unreadCount :: "nat option"
  conv_lastMessageAt :: "timestamp option"
  conv_status :: string

record chatMessage =
  msg_id :: nat
  msg_conversationId :: nat
  msg_whatsappNumberId :: "nat option"
  msg_direction :: string
  msg_messageType :: string
  msg_content :: string
  msg_whatsappMessageId :: "string option"
  msg_status :: string
  msg_deliveredAt :: "timestamp option"
  msg_createdAt :: "timestamp option"

record pipeline =
  pipeline_id :: nat
  pipeline_isDefault :: bool

record pipelineStage =
  stage_id :: nat
  stage_pipelineId :: nat
  stage_order :: int

record audienceConfig =
  audience_pipelineStageId :: "nat option"

record campaign =
  campaign_id :: nat
  campaign_status :: string
  campaign_totalRecipients :: nat
  campaign_audienceConfig :: "audienceConfig option"
  campaign_startedAt :: "timestamp option"

record campaignRecipient =
  recipient_id :: nat
  recipient_campaignId :: nat
  recipient_leadId :: nat
  recipient_status :: string

text \<open>A settings row: its key and its other columns, as the object the ORM returns.\<close>

record appSettingsRow =
  settings_id :: nat
  settings_columns :: jsobject

record database =
  leads :: "lead list"
  leads_autoIncrement :: nat
  conversations :: "conversation list"
  conversations_autoIncrement :: nat
  chatMessages :: "chatMessage list"
  chatMessages_autoIncrement :: nat
  pipelines :: "pipeline list"
  pipelineStages :: "pipelineStage list"
  whatsappNumbers :: "nat list"
  campaigns :: "campaign list"
  campaignRecipients :: "campaignRecipient list"
  campaignRecipients_autoIncrement :: nat
  appSettings :: "appSettingsRow list"
  appSettings_autoIncrement :: nat

text \<open>
  \<open>SELECT ... ORDER BY key ASC LIMIT 1\<close>: a row with the least key, the first of them in
  table order (SQL leaves the choice among equal keys open). \<open>LIMIT 1\<close> without an order
  is \<open>find\<close>: the first row that matches.
\<close>

fun firstBy :: "('a \<Rightarrow> int) \<Rightarrow> 'a list \<Rightarrow> 'a option" where
  "firstBy key [] = None"
| "firstBy key (x # xs) =
     (case firstBy key xs of
        None \<Rightarrow> Some x
      | Some y \<Rightarrow> if key y < key x then Some y else Some x)"

text \<open>The database with no row in any table.\<close>

definition emptyDatabase :: database where
  "emptyDatabase =
     \<lparr>leads = [], leads_autoIncrement = 0, conversations = [], conversations_autoIncrement = 0,
      chatMessages = [], chatMessages_autoIncrement = 0, pipelines = [], pipelineStages = [],
      whatsappNumbers = [], campaigns = [], campaignRecipients = [],
      campaignRecipients_autoIncrement = 0, appSettings = [], appSettings_autoIncrement = 0\<rparr>"

text \<open>What JavaScript throws: \<open>new Error(message)\<close>, a TypeError, or the error of a failed statement.\<close>

record sqlError =
  err_code :: "string option"
  err_message :: "string option"

datatype exn = Error string | TypeError | SqlError sqlError

text \<open>A key in decimal digits, as MySQL prints it in a message.\<close>

fun natToString :: "nat \<Rightarrow> string" where
  "natToString n =
     (if n < 10 then [char_of (48 + n)]
      else natToString (n div 10) @ [char_of (48 + n mod 10)])"

declare natToString.simps [simp del]

text \<open>The error of the MySQL driver for a statement that breaks a unique or primary key.\<close>

definition duplicateEntry :: "string \<Rightarrow> string \<Rightarrow> sqlError" where
  "duplicateEntry entry key =
     \<lparr>err_code = Some ''ER_DUP_ENTRY'',
      err_message =
        Some (''Duplicate entry '' @ [CHR 0x27] @ entry @ [CHR 0x27] @ '' for key '' @
              [CHR 0x27] @ key @ [CHR 0x27])\<rparr>"

text \<open>
  The statements go through drizzle-orm, and the sources do not fix its version. What
  a failed statement throws to its caller depends on it: the driver's error itself, or
  (from version 0.44 on) a \<open>DrizzleQueryError\<close> that wraps it, with no \<open>code\<close> of its own
  and the message \<open>Failed query: ...\<close> with the statement and its parameters. So a
  function that runs a statement which can break a key takes this presentation of the
  driver's error as its parameter \<open>thrown\<close>.
\<close>

type_synonym presentation = "sqlError \<Rightarrow> sqlError"

definition driverError :: presentation where
  "driverError err = err"


section \<open>The app-settings service\<close>

text \<open>
  \<^verbatim>\<open>getOrCreateAppSettings\<close> and \<^verbatim>\<open>updateAppSettings\<close> (services/app-settings, in
  src/unnamed/part_008). The result of a call is what it returns (\<open>rows[0]\<close> is
  \<open>undefined\<close>, here \<open>None\<close>, for an empty result) and the database after it.
\<close>

definition latestAppSettings :: "database \<Rightarrow> appSettingsRow option" where
  "latestAppSettings db = firstBy (\<lambda>r. - int (settings_id r)) (appSettings db)"

definition defaultAppSettings :: jsobject where
  "defaultAppSettings =
     [(''singleton'', JNum 1),
      (''companyName'', JStr ''Imagine Lab CRM''),
      (''timezone'', JStr ''America/Asuncion''),
      (''language'', JStr ''es''),
      (''currency'', JStr ''PYG''),
      (''scheduling'',
         JObj [(''slotMinutes'', JNum 15), (''maxPerSlot'', JNum 6),
               (''allowCustomTime'', JBool True)])]"

definition insertAppSettings :: "jsobject \<Rightarrow> database \<Rightarrow> database" where
  "insertAppSettings columns db =
     (let newId = appSettings_autoIncrement db + 1 in
      db\<lparr>appSettings := appSettings db @ [\<lparr>settings_id = newId, settings_columns = columns\<rparr>],
         appSettings_autoIncrement := newId\<rparr>)"

definition getOrCreateAppSettings :: "database \<Rightarrow> appSettingsRow option \<times> database" where
  "getOrCreateAppSettings db =
     (case latestAppSettings db of
        Some row \<Rightarrow> (Some row, db)
      | None \<Rightarrow>
          (let db' = insertAppSettings defaultAppSettings db
           in (latestAppSettings db', db')))"

text \<open>
  The patch is an object of any shape (\<open>patch: any\<close>), and \<open>set\<close> assigns every column
  it names, the key \<open>id\<close> like any other. Here it is the key, when the patch names it
  (a number, as the column is), and the other columns.
\<close>

record settingsPatch =
  patch_id :: "nat option"
  patch_columns :: jsobject

definition setColumns :: "jsobject \<Rightarrow> jsobject \<Rightarrow> jsobject" where
  "setColumns patch columns = fold (\<lambda>(k, v). AList.update k v) patch columns"

definition applyPatch :: "settingsPatch \<Rightarrow> appSettingsRow \<Rightarrow> appSettingsRow" where
  "applyPatch patch r =
     \<lparr>settings_id = (case patch_id patch of None \<Rightarrow> settings_id r | Some n \<Rightarrow> n),
      settings_columns = setColumns (patch_columns patch) (settings_columns r)\<rparr>"

text \<open>
  \<open>db.update(appSettings).set(patch).where(eq(appSettings.id, rowId))\<close>. \<open>set\<close> throws
  \<open>No values to set\<close> for a patch without a column. The statement fails on the primary
  key when it would give a row the key of another row; otherwise every row with the
  key \<open>rowId\<close> is assigned the patch. A failed statement leaves the table as it was.
  The unique key on the column \<open>singleton\<close> (the migration in src/unnamed/part_012) is
  not part of the model: like the primary key, it can fail the statement only when the
  table holds a second row.
\<close>

definition takenKey :: "nat \<Rightarrow> settingsPatch \<Rightarrow> database \<Rightarrow> nat option" where
  "takenKey rowId patch db =
     (case patch_id patch of
        None \<Rightarrow> None
      | Some n \<Rightarrow>
          if n \<noteq> rowId \<and> rowId \<in> set (map settings_id (appSettings db)) \<and>
             n \<in> set (map settings_id (appSettings db))
          then Some n else None)"

definition updateAppSettingsWhereId ::
  "presentation \<Rightarrow> nat \<Rightarrow> settingsPatch \<Rightarrow> database \<Rightarrow> exn + database" where
  "updateAppSettingsWhereId thrown rowId patch db =
     (if patch_id patch = None \<and> patch_columns patch = [] then Inl (Error ''No values to set'')
      else
        (case takenKey rowId patch db of
           Some n \<Rightarrow> Inl (SqlError (thrown (duplicateEntry (natToString n) ''PRIMARY'')))
         | None \<Rightarrow>
             Inr (db\<lparr>appSettings :=
                       map (\<lambda>r. if settings_id r = rowId then applyPatch patch r else r)
                           (appSettings db)\<rparr>)))"

definition updateAppSettings ::
  "presentation \<Rightarrow> settingsPatch \<Rightarrow> database \<Rightarrow> (exn + appSettingsRow option) \<times> database" where
  "updateAppSettings thrown patch db =
     (case getOrCreateAppSettings db of
        (None, db1) \<Rightarrow> (Inl TypeError, db1)
      | (Some row, db1) \<Rightarrow>
          (case updateAppSettingsWhereId thrown (settings_id row) patch db1 of
             Inl err \<Rightarrow> (Inl err, db1)
           | Inr db2 \<Rightarrow>
               (let fresh = find (\<lambda>r. settings_id r = settings_id row) (appSettings db2)
                in (Inr fresh, db2))))"

text \<open>A call of the service, and a sequence of calls run in order.\<close>

datatype settingsCall = GetOrCreate | Update settingsPatch

fun runSettingsCall :: "presentation \<Rightarrow> settingsCall \<Rightarrow> database \<Rightarrow> database" where
  "runSettingsCall thrown GetOrCreate db = snd (getOrCreateAppSettings db)"
| "runSettingsCall thrown (Update patch) db = snd (updateAppSettings thrown patch db)"

definition runSettingsCalls :: "presentation \<Rightarrow> settingsCall list \<Rightarrow> database \<Rightarrow> database" where
  "runSettingsCalls thrown calls db = fold (runSettingsCall thrown) calls db"

subsection \<open>The settings table holds one row\<close>

lemma firstBy_None: "firstBy key xs = None \<longleftrightarrow> xs = []"
  by (induction xs) (auto split: option.splits)

lemma firstBy_in_set: "firstBy key xs = Some x \<Longrightarrow> x \<in> set xs"
  by (induction xs arbitrary: x) (auto split: option.splits if_splits)

lemma latestAppSettings_None: "latestAppSettings db = None \<longleftrightarrow> appSettings db = []"
  by (simp add: latestAppSettings_def firstBy_None)

lemma appSettings_insertAppSettings:
  "appSettings (insertAppSettings columns db) =
     appSettings db @ [\<lparr>settings_id = appSettings_autoIncrement db + 1, settings_columns = columns\<rparr>]"
  by (simp add: insertAppSettings_def Let_def)

lemma getOrCreateAppSettings_existing:
  "appSettings db \<noteq> [] \<Longrightarrow> snd (getOrCreateAppSettings db) = db"
  by (simp add: getOrCreateAppSettings_def latestAppSettings_None split: option.splits)

lemma getOrCreateAppSettings_empty:
  "appSettings db = [] \<Longrightarrow>
   appSettings (snd (getOrCreateAppSettings db)) =
     [\<lparr>settings_id = appSettings_autoIncrement db + 1, settings_columns = defaultAppSettings\<rparr>]"
  by (simp add: getOrCreateAppSettings_def latestAppSettings_None appSettings_insertAppSettings
        Let_def split: option.splits)

lemma getOrCreateAppSettings_returns:
  "\<exists>row. fst (getOrCreateAppSettings db) = Some row \<and>
         row \<in> set (appSettings (snd (getOrCreateAppSettings db)))"
  by (auto simp add: getOrCreateAppSettings_def latestAppSettings_def firstBy_None Let_def
        appSettings_insertAppSettings split: option.splits dest: firstBy_in_set)

text \<open>The update statement inserts no row and deletes none, whether it fails or not.\<close>

lemma length_updateAppSettingsWhereId:
  "updateAppSettingsWhereId thrown rowId patch db = Inr db' \<Longrightarrow>
   length (appSettings db') = length (appSettings db)"
  by (auto simp add: updateAppSettingsWhereId_def split: if_splits option.splits)

lemma updateAppSettings_length:
  "length (appSettings (snd (updateAppSettings thrown patch db))) =
   length (appSettings (snd (getOrCreateAppSettings db)))"
proof (cases "getOrCreateAppSettings db")
  case (Pair row db1)
  show ?thesis
  proof (cases row)
    case None
    with Pair show ?thesis by (simp add: updateAppSettings_def)
  next
    case (Some r)
    show ?thesis
    proof (cases "updateAppSettingsWhereId thrown (settings_id r) patch db1")
      case (Inl err)
      with Pair Some show ?thesis by (simp add: updateAppSettings_def)
    next
      case (Inr db2)
      from length_updateAppSettingsWhereId [OF Inr] Pair Some Inr show ?thesis
        by (simp add: updateAppSettings_def)
    qed
  qed
qed

lemma length_getOrCreate:
  assumes "length (appSettings db) \<le> 1"
  shows "length (appSettings (snd (getOrCreateAppSettings db))) = 1"
proof (cases "appSettings db")
  case Nil
  then show ?thesis by (simp add: getOrCreateAppSettings_empty)
next
  case (Cons r rs)
  with assms show ?thesis by (simp add: getOrCreateAppSettings_existing)
qed

lemma runSettingsCall_singleton:
  assumes "length (appSettings db) \<le> 1"
  shows "length (appSettings (runSettingsCall thrown c db)) = 1"
proof (cases c)
  case GetOrCreate
  with assms show ?thesis by (simp add: length_getOrCreate)
next
  case (Update patch)
  from assms have "length (appSettings (snd (getOrCreateAppSettings db))) = 1"
    by (rule length_getOrCreate)
  then have "length (appSettings (snd (updateAppSettings thrown patch db))) = 1"
    by (simp only: updateAppSettings_length)
  with Update show ?thesis by simp
qed

lemma runSettingsCalls_singleton:
  "length (appSettings db) \<le> 1 \<Longrightarrow>
   length (appSettings (runSettingsCalls thrown calls db)) \<le> 1"
  unfolding runSettingsCalls_def
proof (induction calls arbitrary: db)
  case Nil
  then show ?case by simp
next
  case (Cons c calls)
  from Cons.prems have "length (appSettings (runSettingsCall thrown c db)) \<le> 1"
    by (simp add: runSettingsCall_singleton)
  from Cons.IH [OF this] show ?case by simp
qed

text \<open>On a table of one row the update cannot meet another row's key.\<close>

lemma updateAppSettings_in_place:
  assumes "appSettings db = [r]"
  shows "updateAppSettings thrown patch db =
           (if patch_id patch = None \<and> patch_columns patch = []
            then (Inl (Error ''No values to set''), db)
            else (Inr (find (\<lambda>x. settings_id x = settings_id r) [applyPatch patch r]),
                  db\<lparr>appSettings := [applyPatch patch r]\<rparr>))"
  using assms
  by (simp add: updateAppSettings_def getOrCreateAppSettings_def latestAppSettings_def
        updateAppSettingsWhereId_def takenKey_def Let_def split: option.splits)

text \<open>
  Claim C8. Started with no settings row, any sequence of \<^verbatim>\<open>getOrCreateAppSettings\<close>
  and \<^verbatim>\<open>updateAppSettings\<close> calls leaves at most one settings row, for every patch
  (one that assigns the key included) and however the ORM presents a failure.
  \<^verbatim>\<open>getOrCreateAppSettings\<close> leaves the database as it is when a row exists and inserts
  the default row when none does. \<^verbatim>\<open>updateAppSettings\<close> leaves as many rows as its
  \<^verbatim>\<open>getOrCreateAppSettings\<close> call left; on a table of one row it assigns the patch to
  that row, where it stands, and changes nothing else in the database, and for a patch
  without a column it throws and changes nothing.
\<close>

theorem appSettings_singleton:
  "(appSettings db = [] \<longrightarrow> length (appSettings (runSettingsCalls thrown calls db)) \<le> 1) \<and>
   (appSettings db \<noteq> [] \<longrightarrow> snd (getOrCreateAppSettings db) = db) \<and>
   (appSettings db = [] \<longrightarrow>
      appSettings (snd (getOrCreateAppSettings db)) =
        [\<lparr>settings_id = appSettings_autoIncrement db + 1, settings_columns = defaultAppSettings\<rparr>]) \<and>
   length (appSettings (snd (updateAppSettings thrown patch db))) =
     length (appSettings (snd (getOrCreateAppSettings db))) \<and>
   (\<forall>r. appSettings db = [r] \<longrightarrow>
      snd (updateAppSettings thrown patch db) =
        (if patch_id patch = None \<and> patch_columns patch = [] then db
         else db\<lparr>appSettings := [applyPatch patch r]\<rparr>))"
proof (intro conjI impI allI)
  assume "appSettings db = []"
  then have "length (appSettings db) \<le> 1" by simp
  then show "length (appSettings (runSettingsCalls thrown calls db)) \<le> 1"
    by (rule runSettingsCalls_singleton)
next
  assume "appSettings db \<noteq> []"
  then show "snd (getOrCreateAppSettings db) = db"
    by (rule getOrCreateAppSettings_existing)
next
  assume "appSettings db = []"
  then show "appSettings (snd (getOrCreateAppSettings db)) =
      [\<lparr>settings_id = appSettings_autoIncrement db + 1, settings_columns = defaultAppSettings\<rparr>]"
    by (rule getOrCreateAppSettings_empty)
next
  show "length (appSettings (snd (updateAppSettings thrown patch db))) =
     length (appSettings (snd (getOrCreateAppSettings db)))"
    by (rule updateAppSettings_length)
next
  fix r assume "appSettings db = [r]"
  then show "snd (updateAppSettings thrown patch db) =
        (if patch_id patch = None \<and> patch_columns patch = [] then db
         else db\<lparr>appSettings := [applyPatch patch r]\<rparr>)"
    by (simp add: updateAppSettings_in_place)
qed

text \<open>
  The theorem at the empty database, with an update that moves the key to 5, a read
  and a second update, and at the database that the first \<^verbatim>\<open>getOrCreateAppSettings\<close>
  leaves, which holds the default row with key 1: the read inserts nothing, and the
  update leaves one row, with key 5 and the patched column.
\<close>

theorem appSettings_singleton_witness:
  "length (appSettings (runSettingsCalls driverError
       [Update \<lparr>patch_id = Some 5, patch_columns = [(''language'', JStr ''en'')]\<rparr>,
        GetOrCreate,
        Update \<lparr>patch_id = None, patch_columns = [(''currency'', JStr ''USD'')]\<rparr>]
       emptyDatabase)) \<le> 1 \<and>
   appSettings (snd (getOrCreateAppSettings emptyDatabase)) =
     [\<lparr>settings_id = 1, settings_columns = defaultAppSettings\<rparr>] \<and>
   snd (getOrCreateAppSettings (snd (getOrCreateAppSettings emptyDatabase))) =
     snd (getOrCreateAppSettings emptyDatabase) \<and>
   appSettings (snd (updateAppSettings driverError
                      \<lparr>patch_id = Some 5, patch_columns = [(''language'', JStr ''en'')]\<rparr>
                      (snd (getOrCreateAppSettings emptyDatabase)))) =
     [\<lparr>settings_id = 5,
       settings_columns = setColumns [(''language'', JStr ''en'')] defaultAppSettings\<rparr>]"
proof -
  let ?db1 = "snd (getOrCreateAppSettings emptyDatabase)"
  let ?r = "\<lparr>settings_id = 1, settings_columns = defaultAppSettings\<rparr>"
  let ?patch = "\<lparr>patch_id = Some 5, patch_columns = [(''language'', JStr ''en'')]\<rparr>"
  have e: "appSettings emptyDatabase = []" "appSettings_autoIncrement emptyDatabase = 0"
    by (simp_all add: emptyDatabase_def)
  note w0 = appSettings_singleton [of emptyDatabase driverError
      "[Update ?patch, GetOrCreate,
        Update \<lparr>patch_id = None, patch_columns = [(''currency'', JStr ''USD'')]\<rparr>]"
      ?patch]
  from w0 e have r1: "appSettings ?db1 = [?r]" by simp
  note w1 = appSettings_singleton [of ?db1 driverError "[]" ?patch]
  from w1 r1 have "snd (getOrCreateAppSettings ?db1) = ?db1"
    and "snd (updateAppSettings driverError ?patch ?db1) =
           ?db1\<lparr>appSettings := [applyPatch ?patch ?r]\<rparr>"
    by simp_all
  with w0 e r1 show ?thesis by (simp add: applyPatch_def)
qed

section \<open>The \<^verbatim>\<open>leads.create\<close> mutation\<close>

text \<open>
  \<^verbatim>\<open>leadsRouter.create\<close> (server/routers/leads.ts). The input is the object the zod
  schema admits; identifiers are natural numbers.
\<close>

text \<open>
  A number as far as the mutation reads it: whether it is truthy (it is not 0)
  and what \<open>Number.prototype.toString\<close> gives for it.
\<close>

record jsNumber =
  number_truthy :: bool
  number_toString :: string

record createLeadInput =
  input_name :: string
  input_phone :: string
  input_email :: "string option"
  input_country :: string
  input_source :: "string option"
  input_notes :: "string option"
  input_pipelineStageId :: "nat option"
  input_customFields :: "jsobject option"
  input_value :: "jsNumber option"

text \<open>The returned object; \<open>existed\<close> is \<open>False\<close> where the code leaves the field out.\<close>

record createLeadResult =
  result_id :: nat
  result_success :: bool
  result_existed :: bool

text \<open>A call of \<^verbatim>\<open>dispatchIntegrationEvent\<close>, which the mutation starts and does not await.\<close>

record integrationEvent =
  event_whatsappNumberId :: nat
  event_event :: string
  event_id :: nat
  event_input :: createLeadInput
  event_assignedToId :: "nat option"

text \<open>\<open>String.prototype.toLowerCase\<close> on the code units below 256.\<close>

definition toLowerCase :: "string \<Rightarrow> string" where
  "toLowerCase s =
     map (\<lambda>c. let n = of_char c :: nat in
               if (65 \<le> n \<and> n \<le> 90) \<or> (192 \<le> n \<and> n \<le> 222 \<and> n \<noteq> 215)
               then char_of (n + 32) else c) s"

text \<open>\<open>SELECT max(column)\<close>: NULL over no rows.\<close>

fun sqlMax :: "int list \<Rightarrow> int option" where
  "sqlMax [] = None"
| "sqlMax (x # xs) = (case sqlMax xs of None \<Rightarrow> Some x | Some m \<Rightarrow> Some (max x m))"

definition maxKanbanOrder :: "nat \<Rightarrow> database \<Rightarrow> int option" where
  "maxKanbanOrder stageId db =
     sqlMax (map lead_kanbanOrder
               (filter (\<lambda>l. lead_pipelineStageId l = Some stageId) (leads db)))"

text \<open>The stage of the default pipeline with the least \<open>order\<close>.\<close>

definition firstStageOf :: "nat \<Rightarrow> database \<Rightarrow> pipelineStage option" where
  "firstStageOf pipelineId db =
     firstBy stage_order (filter (\<lambda>s. stage_pipelineId s = pipelineId) (pipelineStages db))"

definition defaultPipeline :: "database \<Rightarrow> pipeline option" where
  "defaultPipeline db = find pipeline_isDefault (pipelines db)"

text \<open>An identifier is truthy when it is neither \<open>null\<close> nor 0.\<close>

definition truthyId :: "nat option \<Rightarrow> bool" where
  "truthyId i = (case i of None \<Rightarrow> False | Some n \<Rightarrow> n \<noteq> 0)"

text \<open>
  \<open>INSERT INTO leads\<close>: the row gets the next key, which is the statement's \<open>insertId\<close>.
  Every caller inserts a phone only after a select found no lead with it.
\<close>

definition insertLead :: "lead \<Rightarrow> database \<Rightarrow> nat \<times> database" where
  "insertLead row db =
     (let newId = leads_autoIncrement db + 1 in
      (newId, db\<lparr>leads := leads db @ [row\<lparr>lead_id := newId\<rparr>], leads_autoIncrement := newId\<rparr>))"

definition resolveStage :: "nat option \<Rightarrow> database \<Rightarrow> nat option" where
  "resolveStage requested db =
     (if \<not> truthyId requested then
        (case defaultPipeline db of
           None \<Rightarrow> requested
         | Some p \<Rightarrow> map_option stage_id (firstStageOf (pipeline_id p) db))
      else requested)"

definition nextKanbanOrder :: "nat option \<Rightarrow> database \<Rightarrow> int" where
  "nextKanbanOrder stageId db =
     (case stageId of
        None \<Rightarrow> 0
      | Some st \<Rightarrow>
          if st \<noteq> 0 then (case maxKanbanOrder st db of None \<Rightarrow> 0 | Some m \<Rightarrow> m) + 1 else 0)"

definition commissionFor :: "string \<Rightarrow> string" where
  "commissionFor country =
     (if toLowerCase country = ''panam'' @ [CHR 0xE1] \<or> toLowerCase country = ''panama''
      then ''10000.00'' else ''5000.00'')"

text \<open>
  The object passed to \<open>values\<close>: the input's fields, then the computed ones. The key
  is not part of it (\<open>lead_id\<close> is set by the insert).
\<close>

definition createLeadValues ::
  "createLeadInput \<Rightarrow> nat option \<Rightarrow> nat option \<Rightarrow> int \<Rightarrow> nat option \<Rightarrow> lead" where
  "createLeadValues input userId stageId nextOrder defaultWhatsappNumberId =
     \<lparr>lead_id = 0,
      lead_name = input_name input,
      lead_phone = input_phone input,
      lead_email = input_email input,
      lead_country = input_country input,
      lead_source = input_source input,
      lead_notes = input_notes input,
      lead_customFields = input_customFields input,
      lead_value =
        Some (case input_value input of
                None \<Rightarrow> ''0.00''
              | Some v \<Rightarrow> if number_truthy v then number_toString v else ''0.00''),
      lead_commission = Some (commissionFor (input_country input)),
      lead_assignedToId = userId,
      lead_whatsappNumberId = defaultWhatsappNumberId,
      lead_pipelineStageId = stageId,
      lead_kanbanOrder = nextOrder,
      lead_createdAt = None,
      lead_updatedAt = None,
      lead_lastContactedAt = None\<rparr>"

definition leadsCreate ::
  "createLeadInput \<Rightarrow> nat option \<Rightarrow> database \<Rightarrow>
   createLeadResult \<times> database \<times> integrationEvent list" where
  "leadsCreate input userId db =
     (case find (\<lambda>l. lead_phone l = input_phone input) (leads db) of
        Some existingLead \<Rightarrow>
          (\<lparr>result_id = lead_id existingLead, result_success = True, result_existed = True\<rparr>,
           db, [])
      | None \<Rightarrow>
          (let stageId = resolveStage (input_pipelineStageId input) db;
               nextOrder = nextKanbanOrder stageId db;
               defaultWhatsappNumberId = (case whatsappNumbers db of [] \<Rightarrow> None | n # _ \<Rightarrow> Some n);
               (newLeadId, db') =
                 insertLead
                   (createLeadValues input userId stageId nextOrder defaultWhatsappNumberId) db;
               events =
                 (case defaultWhatsappNumberId of
                    None \<Rightarrow> []
                  | Some n \<Rightarrow>
                      if n \<noteq> 0 then
                        [\<lparr>event_whatsappNumberId = n,
                          event_event = ''lead_created'',
                          event_id = newLeadId,
                          event_input = input,
                          event_assignedToId = userId\<rparr>]
                      else [])
           in (\<lparr>result_id = newLeadId, result_success = True, result_existed = False\<rparr>,
               db', events)))"

text \<open>The mutation: \<open>getDb()\<close> gives the database or \<open>null\<close>.\<close>

definition leads_create ::
  "createLeadInput \<Rightarrow> nat option \<Rightarrow> database option \<Rightarrow>
   exn + createLeadResult \<times> database \<times> integrationEvent list" where
  "leads_create input userId db =
     (case db of
        None \<Rightarrow> Inl (Error ''Database not available'')
      | Some d \<Rightarrow> Inr (leadsCreate input userId d))"


text \<open>A sequence of \<^verbatim>\<open>leads.create\<close> calls, each with its input and its user.\<close>

definition createLeads :: "(createLeadInput \<times> nat option) list \<Rightarrow> database \<Rightarrow> database" where
  "createLeads calls db =
     fold (\<lambda>(input, userId) d. fst (snd (leadsCreate input userId d))) calls db"

subsection \<open>One lead per phone number\<close>

lemma find_phone_None:
  "find (\<lambda>l. lead_phone l = p) ls = None \<longleftrightarrow> p \<notin> lead_phone ` set ls"
  by (auto simp add: find_None_iff)

lemma find_phone_Some:
  "find (\<lambda>l. lead_phone l = p) ls = Some l \<Longrightarrow> l \<in> set ls \<and> lead_phone l = p"
  by (auto simp add: find_Some_iff)

lemma leadsCreate_existing:
  assumes "find (\<lambda>l. lead_phone l = input_phone input) (leads db) = Some l"
  shows "leadsCreate input userId db =
           (\<lparr>result_id = lead_id l, result_success = True, result_existed = True\<rparr>, db, [])"
  using assms by (simp add: leadsCreate_def)

lemma leads_insertLead:
  "leads (snd (insertLead row db)) = leads db @ [row\<lparr>lead_id := leads_autoIncrement db + 1\<rparr>]"
  by (simp add: insertLead_def Let_def)

lemma insertLead_eq:
  "insertLead row db =
     (leads_autoIncrement db + 1,
      db\<lparr>leads := leads db @ [row\<lparr>lead_id := leads_autoIncrement db + 1\<rparr>],
         leads_autoIncrement := leads_autoIncrement db + 1\<rparr>)"
  by (simp add: insertLead_def Let_def)

text \<open>The row that \<^verbatim>\<open>leads.create\<close> inserts for a new phone number.\<close>

definition createdLead :: "createLeadInput \<Rightarrow> nat option \<Rightarrow> database \<Rightarrow> lead" where
  "createdLead input userId db =
     (let stageId = resolveStage (input_pipelineStageId input) db in
      (createLeadValues input userId stageId (nextKanbanOrder stageId db)
         (case whatsappNumbers db of [] \<Rightarrow> None | n # _ \<Rightarrow> Some n))
      \<lparr>lead_id := leads_autoIncrement db + 1\<rparr>)"

lemma lead_phone_createdLead: "lead_phone (createdLead input userId db) = input_phone input"
  by (simp add: createdLead_def createLeadValues_def Let_def)

lemma lead_id_createdLead: "lead_id (createdLead input userId db) = leads_autoIncrement db + 1"
  by (simp add: createdLead_def Let_def)

lemma leadsCreate_new:
  assumes "input_phone input \<notin> lead_phone ` set (leads db)"
  shows "fst (leadsCreate input userId db) =
           \<lparr>result_id = leads_autoIncrement db + 1, result_success = True, result_existed = False\<rparr>"
    and "fst (snd (leadsCreate input userId db)) =
           db\<lparr>leads := leads db @ [createdLead input userId db],
              leads_autoIncrement := leads_autoIncrement db + 1\<rparr>"
  using assms
  by (simp_all add: leadsCreate_def find_phone_None [symmetric] insertLead_eq createdLead_def Let_def)

lemma leadsCreate_distinct_phones:
  assumes "distinct (map lead_phone (leads db))"
  shows "distinct (map lead_phone (leads (fst (snd (leadsCreate input userId db)))))"
proof (cases "input_phone input \<in> lead_phone ` set (leads db)")
  case True
  then obtain l where "find (\<lambda>l. lead_phone l = input_phone input) (leads db) = Some l"
    by (cases "find (\<lambda>l. lead_phone l = input_phone input) (leads db)")
       (auto simp add: find_phone_None)
  then show ?thesis using assms by (simp add: leadsCreate_existing)
next
  case False
  with assms show ?thesis
    by (simp add: leadsCreate_new lead_phone_createdLead)
qed

lemma createLeads_distinct_phones:
  "distinct (map lead_phone (leads db)) \<Longrightarrow>
   distinct (map lead_phone (leads (createLeads calls db)))"
  unfolding createLeads_def
proof (induction calls arbitrary: db)
  case Nil
  then show ?case by simp
next
  case (Cons c calls)
  obtain input userId where c: "c = (input, userId)" by (cases c)
  from Cons.prems
  have "distinct (map lead_phone (leads (fst (snd (leadsCreate input userId db)))))"
    by (rule leadsCreate_distinct_phones)
  from Cons.IH [OF this] c show ?case by simp
qed

text \<open>
  Claim C2. When the database holds a lead with the input's phone, \<^verbatim>\<open>leads.create\<close>
  returns the key of such a lead with \<open>existed = true\<close> and leaves the database as it
  was (no lead row is inserted, and no event is dispatched). So a leads table with at
  most one lead per phone number, the empty one included, still has at most one lead
  per phone number after any sequence of \<^verbatim>\<open>leads.create\<close> calls.
\<close>

theorem leads_create_idempotent:
  "(input_phone input \<in> lead_phone ` set (leads db) \<longrightarrow>
      (\<exists>l \<in> set (leads db). lead_phone l = input_phone input \<and>
          leads_create input userId (Some db) =
            Inr (\<lparr>result_id = lead_id l, result_success = True, result_existed = True\<rparr>, db, []))) \<and>
   (distinct (map lead_phone (leads db)) \<longrightarrow>
      distinct (map lead_phone (leads (createLeads calls db))))"
proof (intro conjI impI)
  assume "input_phone input \<in> lead_phone ` set (leads db)"
  then obtain l where l: "find (\<lambda>l. lead_phone l = input_phone input) (leads db) = Some l"
    by (cases "find (\<lambda>l. lead_phone l = input_phone input) (leads db)")
       (auto simp add: find_phone_None)
  from find_phone_Some [OF l] leadsCreate_existing [OF l, of userId]
  show "\<exists>l \<in> set (leads db). lead_phone l = input_phone input \<and>
          leads_create input userId (Some db) =
            Inr (\<lparr>result_id = lead_id l, result_success = True, result_existed = True\<rparr>, db, [])"
    by (auto simp add: leads_create_def)
next
  assume "distinct (map lead_phone (leads db))"
  then show "distinct (map lead_phone (leads (createLeads calls db)))"
    by (rule createLeads_distinct_phones)
qed

text \<open>An input with a phone number and no stage.\<close>

definition exampleInput :: createLeadInput where
  "exampleInput =
     \<lparr>input_name = ''Ana'', input_phone = ''+595981000000'', input_email = None,
      input_country = ''Paraguay'', input_source = None, input_notes = None,
      input_pipelineStageId = None, input_customFields = None, input_value = None\<rparr>"


lemma leads_emptyDatabase: "leads emptyDatabase = []" "leads_autoIncrement emptyDatabase = 0"
  "conversations emptyDatabase = []"
  by (simp_all add: emptyDatabase_def)

text \<open>
  The theorem at the database that one \<^verbatim>\<open>leads.create\<close> call on the empty database
  leaves, where the phone of the input is taken, and at the empty database with two
  calls for the same phone.
\<close>

theorem leads_create_idempotent_witness:
  "leads_create exampleInput None
      (Some (createLeads [(exampleInput, Some 7)] emptyDatabase)) =
     Inr (\<lparr>result_id = 1, result_success = True, result_existed = True\<rparr>,
          createLeads [(exampleInput, Some 7)] emptyDatabase, []) \<and>
   distinct (map lead_phone
      (leads (createLeads [(exampleInput, Some 7), (exampleInput, None)] emptyDatabase)))"
proof -
  let ?db1 = "createLeads [(exampleInput, Some 7)] emptyDatabase"
  have db1: "leads ?db1 = [createdLead exampleInput (Some 7) emptyDatabase]"
    by (simp add: createLeads_def leadsCreate_new leads_emptyDatabase)
  have phone: "input_phone exampleInput \<in> lead_phone ` set (leads ?db1)"
    by (simp add: db1 lead_phone_createdLead)
  have start: "distinct (map lead_phone (leads emptyDatabase))"
    by (simp add: leads_emptyDatabase)
  from leads_create_idempotent [where input = exampleInput and db = ?db1 and userId = None] phone
  obtain l where "l \<in> set (leads ?db1)"
    and "leads_create exampleInput None (Some ?db1) =
           Inr (\<lparr>result_id = lead_id l, result_success = True, result_existed = True\<rparr>, ?db1, [])"
    by blast
  then have "leads_create exampleInput None (Some ?db1) =
           Inr (\<lparr>result_id = 1, result_success = True, result_existed = True\<rparr>, ?db1, [])"
    by (simp add: db1 lead_id_createdLead leads_emptyDatabase)
  moreover from leads_create_idempotent
      [where db = emptyDatabase
         and calls = "[(exampleInput, Some 7), (exampleInput, None)]"] start
  have "distinct (map lead_phone
      (leads (createLeads [(exampleInput, Some 7), (exampleInput, None)] emptyDatabase)))"
    by blast
  ultimately show ?thesis by blast
qed

text \<open>
  Claim C3, as the code has it. For a phone number that no lead has, \<^verbatim>\<open>leads.create\<close>
  inserts one lead row with that phone and the next key, returns that key without
  \<open>existed\<close>, and changes nothing else in the database: the conversations table is as
  it was. (A conversation is created later, by the chat router or by the inbound
  message handler.)
\<close>

theorem leads_create_new_lead:
  "input_phone input \<notin> lead_phone ` set (leads db) \<longrightarrow>
     (\<exists>events.
        leads_create input userId (Some db) =
          Inr (\<lparr>result_id = leads_autoIncrement db + 1, result_success = True,
                 result_existed = False\<rparr>,
               db\<lparr>leads := leads db @ [createdLead input userId db],
                  leads_autoIncrement := leads_autoIncrement db + 1\<rparr>,
               events)) \<and>
     lead_phone (createdLead input userId db) = input_phone input \<and>
     lead_id (createdLead input userId db) = leads_autoIncrement db + 1 \<and>
     conversations (fst (snd (leadsCreate input userId db))) = conversations db"
proof
  assume new: "input_phone input \<notin> lead_phone ` set (leads db)"
  obtain res db' events where r: "leadsCreate input userId db = (res, db', events)"
    by (cases "leadsCreate input userId db")
  with leadsCreate_new [OF new, of userId]
  have "res = \<lparr>result_id = leads_autoIncrement db + 1, result_success = True,
                 result_existed = False\<rparr>"
    and "db' = db\<lparr>leads := leads db @ [createdLead input userId db],
                  leads_autoIncrement := leads_autoIncrement db + 1\<rparr>"
    by simp_all
  with r show "(\<exists>events.
        leads_create input userId (Some db) =
          Inr (\<lparr>result_id = leads_autoIncrement db + 1, result_success = True,
                 result_existed = False\<rparr>,
               db\<lparr>leads := leads db @ [createdLead input userId db],
                  leads_autoIncrement := leads_autoIncrement db + 1\<rparr>,
               events)) \<and>
     lead_phone (createdLead input userId db) = input_phone input \<and>
     lead_id (createdLead input userId db) = leads_autoIncrement db + 1 \<and>
     conversations (fst (snd (leadsCreate input userId db))) = conversations db"
    by (simp add: leads_create_def lead_phone_createdLead lead_id_createdLead)
qed

text \<open>The theorem at the empty database.\<close>

theorem leads_create_new_lead_witness:
  "(\<exists>events.
      leads_create exampleInput (Some 7) (Some emptyDatabase) =
        Inr (\<lparr>result_id = 1, result_success = True, result_existed = False\<rparr>,
             emptyDatabase\<lparr>leads := [createdLead exampleInput (Some 7) emptyDatabase],
                             leads_autoIncrement := 1\<rparr>,
             events)) \<and>
   lead_phone (createdLead exampleInput (Some 7) emptyDatabase) = ''+595981000000'' \<and>
   conversations (fst (snd (leadsCreate exampleInput (Some 7) emptyDatabase))) = []"
proof -
  have "input_phone exampleInput \<notin> lead_phone ` set (leads emptyDatabase)"
    by (simp add: leads_emptyDatabase)
  with leads_create_new_lead [of exampleInput emptyDatabase "Some 7"]
  show ?thesis by (simp add: leads_emptyDatabase exampleInput_def)
qed

text \<open>
  Claim C3 as the specification words it says that a conversation row is created for
  the new lead. On the empty database the call inserts the lead and the conversations
  table stays empty.
\<close>

theorem leads_create_no_conversation:
  "conversations (fst (snd (leadsCreate exampleInput (Some 7) emptyDatabase))) = [] \<and>
   map lead_phone (leads (fst (snd (leadsCreate exampleInput (Some 7) emptyDatabase)))) =
     [''+595981000000'']"
  by (simp add: leadsCreate_def exampleInput_def emptyDatabase_def insertLead_eq
        createLeadValues_def Let_def)


section \<open>The inbound message handler\<close>

text \<open>
  \<^verbatim>\<open>MessageHandler.handleIncomingMessage\<close> (services/message-handler, the later of the
  two versions in src/unnamed/part_008, which assigns the pipeline stage). The fields
  of the Baileys message that the handler reads:
\<close>

record messageKey =
  key_remoteJid :: "string option"
  key_fromMe :: bool
  key_id :: "string option"

record messageContent =
  content_conversation :: "string option"
  content_extendedText :: "string option"
  content_imageCaption :: "string option"

record waMessage =
  message_key :: messageKey
  message_message :: "messageContent option"
  message_pushName :: "string option"

text \<open>\<open>a || b\<close> on an optional string: \<open>undefined\<close>, \<open>null\<close> and the empty string are falsy.\<close>

definition orElse :: "string option \<Rightarrow> string \<Rightarrow> string" where
  "orElse a b = (case a of None \<Rightarrow> b | Some s \<Rightarrow> if s = [] then b else s)"

definition messageText :: "waMessage \<Rightarrow> string" where
  "messageText message =
     (case message_message message of
        None \<Rightarrow> ''Media Message''
      | Some m \<Rightarrow>
          orElse (content_conversation m)
            (orElse (content_extendedText m)
               (orElse (content_imageCaption m) ''Media Message'')))"

text \<open>\<open>'+' + jid.split('@')[0]\<close>.\<close>

definition phoneNumberOf :: "string \<Rightarrow> string" where
  "phoneNumberOf jid = CHR ''+'' # takeWhile (\<lambda>c. c \<noteq> CHR ''@'') jid"

definition insertConversation :: "conversation \<Rightarrow> database \<Rightarrow> nat \<times> database" where
  "insertConversation row db =
     (let newId = conversations_autoIncrement db + 1 in
      (newId, db\<lparr>conversations := conversations db @ [row\<lparr>conv_id := newId\<rparr>],
                 conversations_autoIncrement := newId\<rparr>))"

definition insertChatMessage :: "chatMessage \<Rightarrow> database \<Rightarrow> database" where
  "insertChatMessage row db =
     (let newId = chatMessages_autoIncrement db + 1 in
      db\<lparr>chatMessages := chatMessages db @ [row\<lparr>msg_id := newId\<rparr>],
         chatMessages_autoIncrement := newId\<rparr>)"

text \<open>
  Step 1, find or create the lead. The stage is the first stage of the default
  pipeline when there is one, and the kanban order follows the greatest one in that
  stage; without a default pipeline, or without a stage in it, the lead has no stage
  and order 0.
\<close>

definition inboundStage :: "database \<Rightarrow> nat option \<times> int" where
  "inboundStage db =
     (case defaultPipeline db of
        None \<Rightarrow> (None, 0)
      | Some p \<Rightarrow>
          (case firstStageOf (pipeline_id p) db of
             None \<Rightarrow> (None, 0)
           | Some firstStage \<Rightarrow>
               (Some (stage_id firstStage),
                (case maxKanbanOrder (stage_id firstStage) db of None \<Rightarrow> 0 | Some m \<Rightarrow> m) + 1)))"

definition findOrCreateLead ::
  "timestamp \<Rightarrow> string \<Rightarrow> string \<Rightarrow> database \<Rightarrow> nat \<times> database" where
  "findOrCreateLead now phoneNumber contactName db =
     (case find (\<lambda>l. lead_phone l = phoneNumber) (leads db) of
        Some existingLead \<Rightarrow>
          (lead_id existingLead,
           db\<lparr>leads :=
                map (\<lambda>l. if lead_id l = lead_id existingLead
                          then l\<lparr>lead_lastContactedAt := Some now\<rparr> else l)
                    (leads db)\<rparr>)
      | None \<Rightarrow>
          (let (stageId, nextOrder) = inboundStage db in
           insertLead
             \<lparr>lead_id = 0,
              lead_name = contactName,
              lead_phone = phoneNumber,
              lead_email = None,
              lead_country = ''Unknown'',
              lead_source = Some ''whatsapp_inbound'',
              lead_notes = None,
              lead_customFields = None,
              lead_value = None,
              lead_commission = None,
              lead_assignedToId = None,
              lead_whatsappNumberId = None,
              lead_pipelineStageId = stageId,
              lead_kanbanOrder = nextOrder,
              lead_createdAt = Some now,
              lead_updatedAt = Some now,
              lead_lastContactedAt = Some now\<rparr>
             db))"

text \<open>Step 2, find or create the conversation of the lead on this WhatsApp number.\<close>

definition conversationOf :: "nat \<Rightarrow> nat \<Rightarrow> database \<Rightarrow> conversation option" where
  "conversationOf leadId userId db =
     find (\<lambda>c. conv_leadId c = Some leadId \<and> conv_whatsappNumberId c = Some userId \<and>
                conv_channel c = ''whatsapp'')
          (conversations db)"

definition findOrCreateConversation ::
  "timestamp \<Rightarrow> nat \<Rightarrow> nat \<Rightarrow> string \<Rightarrow> string \<Rightarrow> database \<Rightarrow> nat \<times> database" where
  "findOrCreateConversation now userId leadId phoneNumber contactName db =
     (case conversationOf leadId userId db of
        Some existingConv \<Rightarrow>
          (conv_id existingConv,
           db\<lparr>conversations :=
                map (\<lambda>c. if conv_id c = conv_id existingConv
                          then c\<lparr>conv_lastMessageAt := Some now,
                                 conv_unreadCount :=
                                   Some ((case conv_unreadCount existingConv of
                                            None \<Rightarrow> 0 | Some n \<Rightarrow> n) + 1)\<rparr>
                          else c)
                    (conversations db)\<rparr>)
      | None \<Rightarrow>
          insertConversation
            \<lparr>conv_id = 0,
             conv_channel = ''whatsapp'',
             conv_whatsappNumberId = Some userId,
             conv_leadId = Some leadId,
             conv_contactPhone = phoneNumber,
             conv_contactName = contactName,
             conv_unreadCount = Some 1,
             conv_lastMessageAt = Some now,
             conv_status = ''active''\<rparr>
            db)"

text \<open>Step 3, insert the chat message.\<close>

definition inboundChatMessage ::
  "timestamp \<Rightarrow> nat \<Rightarrow> nat \<Rightarrow> string \<Rightarrow> string option \<Rightarrow> chatMessage" where
  "inboundChatMessage now userId conversationId text' messageId =
     \<lparr>msg_id = 0,
      msg_conversationId = conversationId,
      msg_whatsappNumberId = Some userId,
      msg_direction = ''inbound'',
      msg_messageType = ''text'',
      msg_content = text',
      msg_whatsappMessageId = messageId,
      msg_status = ''delivered'',
      msg_deliveredAt = Some now,
      msg_createdAt = Some now\<rparr>"

text \<open>
  The handler. \<open>getDb()\<close> gives the database or \<open>null\<close>. No statement of the \<open>try\<close>
  block fails in this model, so its \<open>catch\<close> has no branch. The result is the database
  after the call.
\<close>

definition handleIncomingMessage ::
  "timestamp \<Rightarrow> nat \<Rightarrow> waMessage \<Rightarrow> database option \<Rightarrow> database option" where
  "handleIncomingMessage now userId message getDb =
     (case getDb of
        None \<Rightarrow> None
      | Some db \<Rightarrow>
          (case key_remoteJid (message_key message) of
             None \<Rightarrow> Some db
           | Some jid \<Rightarrow>
               if jid = [] \<or> includes_str jid ''@g.us'' \<or> includes_str jid ''status@broadcast''
               then Some db
               else if key_fromMe (message_key message) then Some db
               else
                 (let text' = messageText message;
                      phoneNumber = phoneNumberOf jid;
                      contactName = orElse (message_pushName message) ''Unknown'';
                      (leadId, db1) = findOrCreateLead now phoneNumber contactName db;
                      (conversationId, db2) =
                        findOrCreateConversation now userId leadId phoneNumber contactName db1;
                      db3 = insertChatMessage
                              (inboundChatMessage now userId conversationId text'
                                 (key_id (message_key message)))
                              db2
                  in Some db3)))"

text \<open>A text message from a contact, with the contact's name.\<close>

definition exampleMessage :: waMessage where
  "exampleMessage =
     \<lparr>message_key = \<lparr>key_remoteJid = Some ''595981000000@s.whatsapp.net'', key_fromMe = False,
                       key_id = Some ''3EB0A1''\<rparr>,
      message_message = Some \<lparr>content_conversation = Some ''hola'', content_extendedText = None,
                              content_imageCaption = None\<rparr>,
      message_pushName = Some ''Ana''\<rparr>"


subsection \<open>The steps of the handler\<close>

lemma find_map_preserved:
  assumes "\<And>y. P (f y) = P y"
  shows "find P (map f xs) = map_option f (find P xs)"
  using assms by (induction xs) simp_all

lemma find_append_new:
  "find P xs = None \<Longrightarrow> P x \<Longrightarrow> find P (xs @ [x]) = Some x"
  by (induction xs) (simp_all split: if_splits)

text \<open>The lead the handler works with afterwards, and what the step does to the tables.\<close>

definition countOf :: "nat option \<Rightarrow> nat" where
  "countOf n = (case n of None \<Rightarrow> 0 | Some k \<Rightarrow> k)"

lemma findOrCreateLead_existing:
  assumes "find (\<lambda>l. lead_phone l = phoneNumber) (leads db) = Some l"
  shows "findOrCreateLead now phoneNumber contactName db =
           (lead_id l,
            db\<lparr>leads := map (\<lambda>x. if lead_id x = lead_id l
                                   then x\<lparr>lead_lastContactedAt := Some now\<rparr> else x)
                              (leads db)\<rparr>)"
  using assms by (simp add: findOrCreateLead_def)

definition inboundLead :: "timestamp \<Rightarrow> string \<Rightarrow> string \<Rightarrow> database \<Rightarrow> lead" where
  "inboundLead now phoneNumber contactName db =
     \<lparr>lead_id = leads_autoIncrement db + 1,
      lead_name = contactName,
      lead_phone = phoneNumber,
      lead_email = None,
      lead_country = ''Unknown'',
      lead_source = Some ''whatsapp_inbound'',
      lead_notes = None,
      lead_customFields = None,
      lead_value = None,
      lead_commission = None,
      lead_assignedToId = None,
      lead_whatsappNumberId = None,
      lead_pipelineStageId = fst (inboundStage db),
      lead_kanbanOrder = snd (inboundStage db),
      lead_createdAt = Some now,
      lead_updatedAt = Some now,
      lead_lastContactedAt = Some now\<rparr>"

lemma findOrCreateLead_new:
  assumes "find (\<lambda>l. lead_phone l = phoneNumber) (leads db) = None"
  shows "findOrCreateLead now phoneNumber contactName db =
           (leads_autoIncrement db + 1,
            db\<lparr>leads := leads db @ [inboundLead now phoneNumber contactName db],
               leads_autoIncrement := leads_autoIncrement db + 1\<rparr>)"
  using assms
  by (simp add: findOrCreateLead_def insertLead_eq inboundLead_def split: prod.splits)

lemma findOrCreateLead_others:
  "conversations (snd (findOrCreateLead now phoneNumber contactName db)) = conversations db"
  "chatMessages (snd (findOrCreateLead now phoneNumber contactName db)) = chatMessages db"
  "conversations_autoIncrement (snd (findOrCreateLead now phoneNumber contactName db)) =
     conversations_autoIncrement db"
  "chatMessages_autoIncrement (snd (findOrCreateLead now phoneNumber contactName db)) =
     chatMessages_autoIncrement db"
  by (cases "find (\<lambda>l. lead_phone l = phoneNumber) (leads db)";
      simp add: findOrCreateLead_existing findOrCreateLead_new)+

lemma findOrCreateLead_finds:
  "\<exists>l. find (\<lambda>l. lead_phone l = phoneNumber)
            (leads (snd (findOrCreateLead now phoneNumber contactName db))) = Some l \<and>
       lead_id l = fst (findOrCreateLead now phoneNumber contactName db)"
proof (cases "find (\<lambda>l. lead_phone l = phoneNumber) (leads db)")
  case None
  then show ?thesis
    by (simp add: findOrCreateLead_new find_append_new inboundLead_def)
next
  case (Some l)
  have "find (\<lambda>l. lead_phone l = phoneNumber)
          (map (\<lambda>x. if lead_id x = lead_id l then x\<lparr>lead_lastContactedAt := Some now\<rparr> else x)
               (leads db)) =
        map_option (\<lambda>x. if lead_id x = lead_id l then x\<lparr>lead_lastContactedAt := Some now\<rparr> else x)
          (find (\<lambda>l. lead_phone l = phoneNumber) (leads db))"
    by (rule find_map_preserved) simp
  with Some show ?thesis by (simp add: findOrCreateLead_existing)
qed

lemma findOrCreateLead_length:
  "length (leads (snd (findOrCreateLead now phoneNumber contactName db))) =
     (if phoneNumber \<in> lead_phone ` set (leads db) then length (leads db)
      else length (leads db) + 1)"
  by (cases "find (\<lambda>l. lead_phone l = phoneNumber) (leads db)")
     (auto simp add: findOrCreateLead_existing findOrCreateLead_new find_phone_None
        dest: find_phone_Some)

text \<open>The conversation step.\<close>

definition bumped :: "timestamp \<Rightarrow> conversation \<Rightarrow> conversation" where
  "bumped now c =
     c\<lparr>conv_lastMessageAt := Some now,
       conv_unreadCount := Some (countOf (conv_unreadCount c) + 1)\<rparr>"

definition inboundConversation ::
  "timestamp \<Rightarrow> nat \<Rightarrow> nat \<Rightarrow> string \<Rightarrow> string \<Rightarrow> database \<Rightarrow> conversation" where
  "inboundConversation now userId leadId phoneNumber contactName db =
     \<lparr>conv_id = conversations_autoIncrement db + 1,
      conv_channel = ''whatsapp'',
      conv_whatsappNumberId = Some userId,
      conv_leadId = Some leadId,
      conv_contactPhone = phoneNumber,
      conv_contactName = contactName,
      conv_unreadCount = Some 1,
      conv_lastMessageAt = Some now,
      conv_status = ''active''\<rparr>"

lemma findOrCreateConversation_existing:
  assumes "conversationOf leadId userId db = Some c"
  shows "findOrCreateConversation now userId leadId phoneNumber contactName db =
           (conv_id c,
            db\<lparr>conversations :=
                 map (\<lambda>x. if conv_id x = conv_id c
                           then x\<lparr>conv_lastMessageAt := Some now,
                                  conv_unreadCount := Some (countOf (conv_unreadCount c) + 1)\<rparr>
                           else x)
                     (conversations db)\<rparr>)"
  using assms by (simp add: findOrCreateConversation_def countOf_def)

lemma findOrCreateConversation_new:
  assumes "conversationOf leadId userId db = None"
  shows "findOrCreateConversation now userId leadId phoneNumber contactName db =
           (conversations_autoIncrement db + 1,
            db\<lparr>conversations :=
                 conversations db @ [inboundConversation now userId leadId phoneNumber contactName db],
               conversations_autoIncrement := conversations_autoIncrement db + 1\<rparr>)"
  using assms
  by (simp add: findOrCreateConversation_def insertConversation_def inboundConversation_def Let_def)

lemma findOrCreateConversation_others:
  "leads (snd (findOrCreateConversation now userId leadId phoneNumber contactName db)) = leads db"
  "chatMessages (snd (findOrCreateConversation now userId leadId phoneNumber contactName db)) =
     chatMessages db"
  "chatMessages_autoIncrement
     (snd (findOrCreateConversation now userId leadId phoneNumber contactName db)) =
     chatMessages_autoIncrement db"
  by (cases "conversationOf leadId userId db";
      simp add: findOrCreateConversation_existing findOrCreateConversation_new)+

lemma findOrCreateConversation_finds:
  "conversationOf leadId userId
     (snd (findOrCreateConversation now userId leadId phoneNumber contactName db)) =
     Some (case conversationOf leadId userId db of
             Some c \<Rightarrow> bumped now c
           | None \<Rightarrow> inboundConversation now userId leadId phoneNumber contactName db)"
proof (cases "conversationOf leadId userId db")
  case None
  then show ?thesis
    by (simp add: findOrCreateConversation_new)
       (simp add: conversationOf_def find_append_new inboundConversation_def)
next
  case (Some c)
  let ?f = "\<lambda>x. if conv_id x = conv_id c
                 then x\<lparr>conv_lastMessageAt := Some now,
                        conv_unreadCount := Some (countOf (conv_unreadCount c) + 1)\<rparr>
                 else x"
  let ?P = "\<lambda>c. conv_leadId c = Some leadId \<and> conv_whatsappNumberId c = Some userId \<and>
                conv_channel c = ''whatsapp''"
  have "find ?P (map ?f (conversations db)) = map_option ?f (find ?P (conversations db))"
    by (rule find_map_preserved) simp
  with Some show ?thesis
    by (simp add: findOrCreateConversation_existing)
       (simp add: conversationOf_def bumped_def)
qed

lemma findOrCreateConversation_id:
  "fst (findOrCreateConversation now userId leadId phoneNumber contactName db) =
     conv_id (case conversationOf leadId userId db of
                Some c \<Rightarrow> bumped now c
              | None \<Rightarrow> inboundConversation now userId leadId phoneNumber contactName db)"
  by (cases "conversationOf leadId userId db")
     (simp_all add: findOrCreateConversation_existing findOrCreateConversation_new
        bumped_def inboundConversation_def)


subsection \<open>The handler on an accepted message\<close>

text \<open>
  A message is accepted when it has a remote JID that is neither a group nor the
  status broadcast, and is not from the account itself.
\<close>

definition accepts :: "waMessage \<Rightarrow> string \<Rightarrow> bool" where
  "accepts message jid \<longleftrightarrow>
     key_remoteJid (message_key message) = Some jid \<and> jid \<noteq> [] \<and>
     \<not> includes_str jid ''@g.us'' \<and> \<not> includes_str jid ''status@broadcast'' \<and>
     \<not> key_fromMe (message_key message)"

text \<open>The first two steps on the message's phone number and contact name.\<close>

definition leadStep :: "timestamp \<Rightarrow> waMessage \<Rightarrow> string \<Rightarrow> database \<Rightarrow> nat \<times> database" where
  "leadStep now message jid db =
     findOrCreateLead now (phoneNumberOf jid) (orElse (message_pushName message) ''Unknown'') db"

definition conversationStep ::
  "timestamp \<Rightarrow> nat \<Rightarrow> waMessage \<Rightarrow> string \<Rightarrow> database \<Rightarrow> nat \<times> database" where
  "conversationStep now userId message jid db =
     findOrCreateConversation now userId (fst (leadStep now message jid db)) (phoneNumberOf jid)
       (orElse (message_pushName message) ''Unknown'') (snd (leadStep now message jid db))"

lemma handleIncomingMessage_accepted:
  assumes "accepts message jid"
  shows "handleIncomingMessage now userId message (Some db) =
           Some (insertChatMessage
                   (inboundChatMessage now userId (fst (conversationStep now userId message jid db))
                      (messageText message) (key_id (message_key message)))
                   (snd (conversationStep now userId message jid db)))"
  using assms
  by (simp add: handleIncomingMessage_def accepts_def conversationStep_def leadStep_def
        Let_def split: prod.splits)

lemma handleIncomingMessage_ignored:
  "handleIncomingMessage now userId message None = None"
  "\<not> (\<exists>jid. accepts message jid) \<Longrightarrow> handleIncomingMessage now userId message (Some db) = Some db"
  by (auto simp add: handleIncomingMessage_def accepts_def split: option.splits)

lemma insertChatMessage_eq:
  "insertChatMessage row db =
     db\<lparr>chatMessages := chatMessages db @ [row\<lparr>msg_id := chatMessages_autoIncrement db + 1\<rparr>],
        chatMessages_autoIncrement := chatMessages_autoIncrement db + 1\<rparr>"
  by (simp add: insertChatMessage_def Let_def)

lemma conversationOf_cong:
  "conversations db' = conversations db \<Longrightarrow>
   conversationOf leadId userId db' = conversationOf leadId userId db"
  by (simp add: conversationOf_def)

text \<open>What the lookups select.\<close>

lemma firstBy_least:
  "firstBy key xs = Some x \<Longrightarrow> x \<in> set xs \<and> (\<forall>y \<in> set xs. key x \<le> key y)"
  by (induction xs arbitrary: x) (fastforce split: option.splits if_splits simp add: firstBy_None)+

lemma firstStageOf_least:
  assumes "firstStageOf pipelineId db = Some st"
  shows "st \<in> set (pipelineStages db) \<and> stage_pipelineId st = pipelineId \<and>
         (\<forall>s \<in> set (pipelineStages db). stage_pipelineId s = pipelineId \<longrightarrow> stage_order st \<le> stage_order s)"
  using firstBy_least [OF assms [unfolded firstStageOf_def]] by auto

lemma sqlMax_greatest:
  "sqlMax xs = Some m \<Longrightarrow> m \<in> set xs \<and> (\<forall>x \<in> set xs. x \<le> m)"
proof (induction xs arbitrary: m)
  case Nil
  then show ?case by simp
next
  case (Cons a xs)
  show ?case
  proof (cases "sqlMax xs")
    case None
    with Cons.prems have "m = a" by simp
    moreover from None have "xs = []" by (cases xs) (auto split: option.splits)
    ultimately show ?thesis by simp
  next
    case (Some k)
    with Cons.prems have m: "m = max a k" by simp
    from Cons.IH [OF Some] have "k \<in> set xs" and "\<forall>x \<in> set xs. x \<le> k" by simp_all
    with m show ?thesis by (auto simp add: max_def)
  qed
qed

lemma sqlMax_None: "sqlMax xs = None \<longleftrightarrow> xs = []"
  by (induction xs) (auto split: option.splits)

lemma maxKanbanOrder_greatest:
  assumes "maxKanbanOrder stageId db = Some m"
  shows "(\<exists>l \<in> set (leads db). lead_pipelineStageId l = Some stageId \<and> lead_kanbanOrder l = m) \<and>
         (\<forall>l \<in> set (leads db). lead_pipelineStageId l = Some stageId \<longrightarrow> lead_kanbanOrder l \<le> m)"
  using sqlMax_greatest [OF assms [unfolded maxKanbanOrder_def]] by auto

lemma maxKanbanOrder_None:
  "maxKanbanOrder stageId db = None \<longleftrightarrow>
     (\<forall>l \<in> set (leads db). lead_pipelineStageId l \<noteq> Some stageId)"
  by (auto simp add: maxKanbanOrder_def sqlMax_None filter_empty_conv)


text \<open>
  The stage and kanban order of a lead that the handler creates: the first stage of the
  default pipeline and one more than the greatest order in that stage (1 when the
  stage has no lead); no stage and order 0 when there is no default pipeline or it has
  no stage.
\<close>

definition stageAssigned :: "database \<Rightarrow> lead \<Rightarrow> bool" where
  "stageAssigned db new =
     (case defaultPipeline db of
        None \<Rightarrow> lead_pipelineStageId new = None \<and> lead_kanbanOrder new = 0
      | Some p \<Rightarrow>
          (case firstStageOf (pipeline_id p) db of
             None \<Rightarrow> lead_pipelineStageId new = None \<and> lead_kanbanOrder new = 0
           | Some st \<Rightarrow>
               lead_pipelineStageId new = Some (stage_id st) \<and>
               lead_kanbanOrder new =
                 (case maxKanbanOrder (stage_id st) db of None \<Rightarrow> 1 | Some m \<Rightarrow> m + 1)))"

lemma stageAssigned_inboundLead:
  "stageAssigned db (inboundLead now phoneNumber contactName db)"
  by (simp add: stageAssigned_def inboundLead_def inboundStage_def split: option.splits)

lemma map_touched_leads:
  "map lead_id (map (\<lambda>x. if lead_id x = i then x\<lparr>lead_lastContactedAt := t\<rparr> else x) xs) =
     map lead_id xs"
  "map lead_phone (map (\<lambda>x. if lead_id x = i then x\<lparr>lead_lastContactedAt := t\<rparr> else x) xs) =
     map lead_phone xs"
  by (induction xs) simp_all

lemma map_bumped_conversations:
  "map conv_id (map (\<lambda>x. if conv_id x = i
                          then x\<lparr>conv_lastMessageAt := t, conv_unreadCount := n\<rparr> else x) xs) =
     map conv_id xs"
  by (induction xs) simp_all

text \<open>
  Claim C1, as the code has it. On an accepted message, with the database available,
  the handler runs three steps in this order and returns the database of the last:
  \<^enum> the lead step: when a lead has the phone number of the JID, that lead is used and
    no lead is created; otherwise one lead is appended with that phone, and its stage
    and kanban order are as \<open>stageAssigned\<close> says: the first stage of the default
    pipeline and one more than the greatest kanban order of the leads in that stage,
    or no stage and order 0 when no default pipeline with a stage exists;
  \<^enum> the conversation step, on the database of the lead step: when a WhatsApp
    conversation of that lead on this number exists, its unread counter is one more
    than before; otherwise one conversation is appended, with the counter at 1;
  \<^enum> the message step: one row is appended to the chat messages, for that
    conversation, with the message's text and its WhatsApp id.
\<close>

theorem handleIncomingMessage_sequence:
  assumes "accepts message jid"
  shows "\<exists>leadId db1 conversationId db2 row.
     findOrCreateLead now (phoneNumberOf jid) (orElse (message_pushName message) ''Unknown'') db =
       (leadId, db1) \<and>
     findOrCreateConversation now userId leadId (phoneNumberOf jid)
         (orElse (message_pushName message) ''Unknown'') db1 = (conversationId, db2) \<and>
     handleIncomingMessage now userId message (Some db) =
       Some (db2\<lparr>chatMessages := chatMessages db @ [row],
                 chatMessages_autoIncrement := chatMessages_autoIncrement db + 1\<rparr>) \<and>
     (case find (\<lambda>l. lead_phone l = phoneNumberOf jid) (leads db) of
        Some l \<Rightarrow>
          leadId = lead_id l \<and> map lead_id (leads db1) = map lead_id (leads db) \<and>
          map lead_phone (leads db1) = map lead_phone (leads db)
      | None \<Rightarrow>
          \<exists>new. leads db1 = leads db @ [new] \<and> lead_id new = leadId \<and>
                lead_phone new = phoneNumberOf jid \<and> stageAssigned db new) \<and>
     conversations db1 = conversations db \<and>
     (case conversationOf leadId userId db1 of
        Some c \<Rightarrow>
          conversationId = conv_id c \<and>
          map conv_id (conversations db2) = map conv_id (conversations db1) \<and>
          (\<exists>c'. conversationOf leadId userId db2 = Some c' \<and> conv_id c' = conv_id c \<and>
                conv_unreadCount c' = Some (countOf (conv_unreadCount c) + 1))
      | None \<Rightarrow>
          \<exists>new. conversations db2 = conversations db1 @ [new] \<and> conv_id new = conversationId \<and>
                conv_leadId new = Some leadId \<and> conv_whatsappNumberId new = Some userId \<and>
                conv_channel new = ''whatsapp'' \<and> conv_unreadCount new = Some 1) \<and>
     leads db2 = leads db1 \<and>
     msg_conversationId row = conversationId \<and>
     msg_content row = messageText message \<and>
     msg_whatsappMessageId row = key_id (message_key message) \<and>
     msg_direction row = ''inbound''"
proof -
  let ?phone = "phoneNumberOf jid"
  let ?name = "orElse (message_pushName message) ''Unknown''"
  obtain leadId db1 where L: "findOrCreateLead now ?phone ?name db = (leadId, db1)"
    by (cases "findOrCreateLead now ?phone ?name db")
  obtain conversationId db2
    where C: "findOrCreateConversation now userId leadId ?phone ?name db1 = (conversationId, db2)"
    by (cases "findOrCreateConversation now userId leadId ?phone ?name db1")
  let ?row = "(inboundChatMessage now userId conversationId (messageText message)
                 (key_id (message_key message)))\<lparr>msg_id := chatMessages_autoIncrement db + 1\<rparr>"
  from findOrCreateLead_others [of now ?phone ?name db] L
  have db1: "conversations db1 = conversations db" "chatMessages db1 = chatMessages db"
    "chatMessages_autoIncrement db1 = chatMessages_autoIncrement db"
    by simp_all
  from findOrCreateConversation_others [of now userId leadId ?phone ?name db1] C
  have db2: "leads db2 = leads db1" "chatMessages db2 = chatMessages db1"
    "chatMessages_autoIncrement db2 = chatMessages_autoIncrement db1"
    by simp_all
  have H: "handleIncomingMessage now userId message (Some db) =
       Some (db2\<lparr>chatMessages := chatMessages db @ [?row],
                 chatMessages_autoIncrement := chatMessages_autoIncrement db + 1\<rparr>)"
    using L C db1 db2
    by (simp add: handleIncomingMessage_accepted [OF assms] conversationStep_def leadStep_def
          insertChatMessage_eq)
  have leadFacts:
    "(case find (\<lambda>l. lead_phone l = ?phone) (leads db) of
        Some l \<Rightarrow>
          leadId = lead_id l \<and> map lead_id (leads db1) = map lead_id (leads db) \<and>
          map lead_phone (leads db1) = map lead_phone (leads db)
      | None \<Rightarrow>
          \<exists>new. leads db1 = leads db @ [new] \<and> lead_id new = leadId \<and>
                lead_phone new = ?phone \<and> stageAssigned db new)"
  proof (cases "find (\<lambda>l. lead_phone l = ?phone) (leads db)")
    case None
    with L have "leads db1 = leads db @ [inboundLead now ?phone ?name db]"
      and "leadId = leads_autoIncrement db + 1"
      by (auto simp add: findOrCreateLead_new)
    with None show ?thesis
      by (simp add: stageAssigned_inboundLead) (simp add: inboundLead_def)
  next
    case (Some l)
    with L show ?thesis
      by (auto simp add: findOrCreateLead_existing map_touched_leads)
  qed
  have convFacts:
    "(case conversationOf leadId userId db1 of
        Some c \<Rightarrow>
          conversationId = conv_id c \<and>
          map conv_id (conversations db2) = map conv_id (conversations db1) \<and>
          (\<exists>c'. conversationOf leadId userId db2 = Some c' \<and> conv_id c' = conv_id c \<and>
                conv_unreadCount c' = Some (countOf (conv_unreadCount c) + 1))
      | None \<Rightarrow>
          \<exists>new. conversations db2 = conversations db1 @ [new] \<and> conv_id new = conversationId \<and>
                conv_leadId new = Some leadId \<and> conv_whatsappNumberId new = Some userId \<and>
                conv_channel new = ''whatsapp'' \<and> conv_unreadCount new = Some 1)"
  proof (cases "conversationOf leadId userId db1")
    case None
    with C have "conversations db2 =
        conversations db1 @ [inboundConversation now userId leadId ?phone ?name db1]"
      and "conversationId = conversations_autoIncrement db1 + 1"
      by (auto simp add: findOrCreateConversation_new)
    with None show ?thesis by (simp add: inboundConversation_def)
  next
    case (Some c)
    from findOrCreateConversation_finds [of leadId userId now ?phone ?name db1] C Some
    have "conversationOf leadId userId db2 = Some (bumped now c)" by simp
    moreover from C Some have "conversationId = conv_id c"
      and "map conv_id (conversations db2) = map conv_id (conversations db1)"
      by (auto simp add: findOrCreateConversation_existing map_bumped_conversations)
    ultimately show ?thesis using Some by (simp add: bumped_def)
  qed
  have rowFacts: "msg_conversationId ?row = conversationId \<and>
     msg_content ?row = messageText message \<and>
     msg_whatsappMessageId ?row = key_id (message_key message) \<and>
     msg_direction ?row = ''inbound''"
    by (simp add: inboundChatMessage_def)
  from L C H leadFacts db1(1) convFacts db2(1) rowFacts show ?thesis by blast
qed


text \<open>
  A database with a default pipeline of two stages, the one with key 11 first in
  order, and one lead in that stage at kanban order 4.
\<close>

definition pipelineDatabase :: database where
  "pipelineDatabase =
     emptyDatabase
       \<lparr>leads :=
          [\<lparr>lead_id = 1, lead_name = ''Luis'', lead_phone = ''+595981000001'', lead_email = None,
            lead_country = ''Paraguay'', lead_source = None, lead_notes = None,
            lead_customFields = None, lead_value = None, lead_commission = None,
            lead_assignedToId = None, lead_whatsappNumberId = None,
            lead_pipelineStageId = Some 11, lead_kanbanOrder = 4, lead_createdAt = None,
            lead_updatedAt = None, lead_lastContactedAt = None\<rparr>],
        leads_autoIncrement := 1,
        pipelines := [\<lparr>pipeline_id = 1, pipeline_isDefault = True\<rparr>],
        pipelineStages :=
          [\<lparr>stage_id = 10, stage_pipelineId = 1, stage_order = 2\<rparr>,
           \<lparr>stage_id = 11, stage_pipelineId = 1, stage_order = 1\<rparr>]\<rparr>"

lemma accepts_exampleMessage: "accepts exampleMessage ''595981000000@s.whatsapp.net''"
  by (simp add: accepts_def exampleMessage_def)

text \<open>
  The theorem at \<open>pipelineDatabase\<close> and a message from a new phone number: the new
  lead is in stage 11 at order 5, its conversation has one unread message, and the
  message row is there.
\<close>

theorem handleIncomingMessage_sequence_witness:
  "\<exists>db3. handleIncomingMessage 100 3 exampleMessage (Some pipelineDatabase) = Some db3 \<and>
     map (\<lambda>l. (lead_phone l, lead_pipelineStageId l, lead_kanbanOrder l)) (leads db3) =
       [(''+595981000001'', Some 11, 4), (''+595981000000'', Some 11, 5)] \<and>
     map (\<lambda>c. (conv_leadId c, conv_whatsappNumberId c, conv_unreadCount c)) (conversations db3) =
       [(Some 2, Some 3, Some 1)] \<and>
     map (\<lambda>m. (msg_conversationId m, msg_content m, msg_whatsappMessageId m)) (chatMessages db3) =
       [(1, ''hola'', Some ''3EB0A1'')]"
proof -
  let ?jid = "''595981000000@s.whatsapp.net''"
  let ?db = pipelineDatabase
  have phone: "phoneNumberOf ?jid = ''+595981000000''"
    by (simp add: phoneNumberOf_def)
  have absent: "find (\<lambda>l. lead_phone l = ''+595981000000'') (leads ?db) = None"
    by (simp add: pipelineDatabase_def emptyDatabase_def)
  have tables: "conversations ?db = []" "chatMessages ?db = []" "leads_autoIncrement ?db = 1"
    "conversations_autoIncrement ?db = 0"
    by (simp_all add: pipelineDatabase_def emptyDatabase_def)
  have stage: "defaultPipeline ?db = Some \<lparr>pipeline_id = 1, pipeline_isDefault = True\<rparr>"
    "firstStageOf 1 ?db = Some \<lparr>stage_id = 11, stage_pipelineId = 1, stage_order = 1\<rparr>"
    "maxKanbanOrder 11 ?db = Some 4"
    by (simp_all add: defaultPipeline_def firstStageOf_def maxKanbanOrder_def pipelineDatabase_def
          emptyDatabase_def)
  from handleIncomingMessage_sequence [OF accepts_exampleMessage, of 100 ?db 3]
  obtain leadId db1 conversationId db2 row new
    where L: "findOrCreateLead 100 ''+595981000000'' (orElse (message_pushName exampleMessage) ''Unknown'') ?db = (leadId, db1)"
      and C: "findOrCreateConversation 100 3 leadId ''+595981000000''
                (orElse (message_pushName exampleMessage) ''Unknown'') db1 = (conversationId, db2)"
      and H: "handleIncomingMessage 100 3 exampleMessage (Some ?db) =
                Some (db2\<lparr>chatMessages := chatMessages ?db @ [row],
                          chatMessages_autoIncrement := chatMessages_autoIncrement ?db + 1\<rparr>)"
      and new: "leads db1 = leads ?db @ [new]" "lead_id new = leadId"
               "lead_phone new = ''+595981000000''" "stageAssigned ?db new"
      and convs: "conversations db1 = conversations ?db"
      and conv: "(case conversationOf leadId 3 db1 of
          Some c \<Rightarrow>
            conversationId = conv_id c \<and>
            map conv_id (conversations db2) = map conv_id (conversations db1) \<and>
            (\<exists>c'. conversationOf leadId 3 db2 = Some c' \<and> conv_id c' = conv_id c \<and>
                  conv_unreadCount c' = Some (countOf (conv_unreadCount c) + 1))
        | None \<Rightarrow>
            \<exists>new. conversations db2 = conversations db1 @ [new] \<and> conv_id new = conversationId \<and>
                  conv_leadId new = Some leadId \<and> conv_whatsappNumberId new = Some 3 \<and>
                  conv_channel new = ''whatsapp'' \<and> conv_unreadCount new = Some 1)"
      and leads2: "leads db2 = leads db1"
      and row: "msg_conversationId row = conversationId" "msg_content row = messageText exampleMessage"
               "msg_whatsappMessageId row = key_id (message_key exampleMessage)"
    unfolding phone absent option.case by blast
  from L absent tables have leadId: "leadId = 2" by (simp add: findOrCreateLead_new)
  from findOrCreateLead_others(3) [of 100 "''+595981000000''"
      "orElse (message_pushName exampleMessage) ''Unknown''" ?db] L tables
  have "conversations_autoIncrement db1 = 0" by simp
  with C convs tables have conversationId: "conversationId = 1"
    by (simp add: findOrCreateConversation_new conversationOf_def)
  from convs tables have "conversationOf leadId 3 db1 = None" by (simp add: conversationOf_def)
  with conv convs tables obtain c where c: "conversations db2 = [c]" "conv_leadId c = Some leadId"
      "conv_whatsappNumberId c = Some 3" "conv_unreadCount c = Some 1"
    by auto
  from new(4) stage have "lead_pipelineStageId new = Some 11" "lead_kanbanOrder new = 5"
    by (simp_all add: stageAssigned_def)
  with new leads2 have
    "map (\<lambda>l. (lead_phone l, lead_pipelineStageId l, lead_kanbanOrder l)) (leads db2) =
       [(''+595981000001'', Some 11, 4), (''+595981000000'', Some 11, 5)]"
    by (simp add: pipelineDatabase_def emptyDatabase_def)
  with H c row leadId conversationId tables show ?thesis
    by (simp add: messageText_def exampleMessage_def orElse_def)
qed

text \<open>
  Claim C1 as the specification words it says that every lead the handler creates is
  assigned to the default pipeline's first stage, with a kanban order one greater than
  the greatest in that stage. In a database without a default pipeline (here the empty
  one) the handler creates the lead with no stage and kanban order 0.
\<close>

theorem handleIncomingMessage_without_default_pipeline:
  "handleIncomingMessage 100 3 exampleMessage (Some emptyDatabase) =
     Some (emptyDatabase
       \<lparr>leads :=
          [\<lparr>lead_id = 1, lead_name = ''Ana'', lead_phone = ''+595981000000'',
            lead_email = None, lead_country = ''Unknown'',
            lead_source = Some ''whatsapp_inbound'', lead_notes = None,
            lead_customFields = None, lead_value = None, lead_commission = None,
            lead_assignedToId = None, lead_whatsappNumberId = None,
            lead_pipelineStageId = None, lead_kanbanOrder = 0, lead_createdAt = Some 100,
            lead_updatedAt = Some 100, lead_lastContactedAt = Some 100\<rparr>],
        leads_autoIncrement := 1,
        conversations :=
          [\<lparr>conv_id = 1, conv_channel = ''whatsapp'', conv_whatsappNumberId = Some 3,
            conv_leadId = Some 1, conv_contactPhone = ''+595981000000'',
            conv_contactName = ''Ana'', conv_unreadCount = Some 1,
            conv_lastMessageAt = Some 100, conv_status = ''active''\<rparr>],
        conversations_autoIncrement := 1,
        chatMessages :=
          [\<lparr>msg_id = 1, msg_conversationId = 1, msg_whatsappNumberId = Some 3,
            msg_direction = ''inbound'', msg_messageType = ''text'', msg_content = ''hola'',
            msg_whatsappMessageId = Some ''3EB0A1'', msg_status = ''delivered'',
            msg_deliveredAt = Some 100, msg_createdAt = Some 100\<rparr>],
        chatMessages_autoIncrement := 1\<rparr>)"
  by (simp add: handleIncomingMessage_def exampleMessage_def emptyDatabase_def phoneNumberOf_def
        messageText_def orElse_def findOrCreateLead_def insertLead_eq findOrCreateConversation_def
        conversationOf_def insertConversation_def insertChatMessage_def inboundChatMessage_def
        inboundStage_def defaultPipeline_def Let_def)

subsection \<open>The same message handled twice\<close>

lemma handleIncomingMessage_once:
  assumes "accepts message jid"
  shows "\<exists>db1 l c row.
     handleIncomingMessage now userId message (Some db) = Some db1 \<and>
     find (\<lambda>l. lead_phone l = phoneNumberOf jid) (leads db1) = Some l \<and>
     (case find (\<lambda>l. lead_phone l = phoneNumberOf jid) (leads db) of
        Some l0 \<Rightarrow>
          lead_id l = lead_id l0 \<and> map lead_id (leads db1) = map lead_id (leads db) \<and>
          map lead_phone (leads db1) = map lead_phone (leads db)
      | None \<Rightarrow> length (leads db1) = length (leads db) + 1) \<and>
     conversationOf (lead_id l) userId db1 = Some c \<and>
     conv_unreadCount c =
       Some (case conversationOf (lead_id l) userId db of
               Some c0 \<Rightarrow> countOf (conv_unreadCount c0) + 1
             | None \<Rightarrow> 1) \<and>
     (case conversationOf (lead_id l) userId db of
        Some c0 \<Rightarrow> conv_id c = conv_id c0
      | None \<Rightarrow> conv_id c = conversations_autoIncrement db + 1) \<and>
     chatMessages db1 = chatMessages db @ [row] \<and>
     msg_conversationId row = conv_id c \<and>
     msg_content row = messageText message \<and>
     msg_whatsappMessageId row = key_id (message_key message)"
proof -
  let ?phone = "phoneNumberOf jid"
  let ?name = "orElse (message_pushName message) ''Unknown''"
  define L where "L = findOrCreateLead now ?phone ?name db"
  define C where "C = findOrCreateConversation now userId (fst L) ?phone ?name (snd L)"
  define row where "row = (inboundChatMessage now userId (fst C) (messageText message)
      (key_id (message_key message)))\<lparr>msg_id := chatMessages_autoIncrement (snd C) + 1\<rparr>"
  define db1 where "db1 = (snd C)\<lparr>chatMessages := chatMessages (snd C) @ [row],
      chatMessages_autoIncrement := chatMessages_autoIncrement (snd C) + 1\<rparr>"
  define c where "c = (case conversationOf (fst L) userId (snd L) of
      Some c \<Rightarrow> bumped now c
    | None \<Rightarrow> inboundConversation now userId (fst L) ?phone ?name (snd L))"
  have H: "handleIncomingMessage now userId message (Some db) = Some db1"
    by (simp add: handleIncomingMessage_accepted [OF assms] conversationStep_def leadStep_def
          insertChatMessage_eq db1_def row_def C_def L_def)
  from findOrCreateLead_finds [of ?phone now ?name db]
  obtain l where l: "find (\<lambda>l. lead_phone l = ?phone) (leads (snd L)) = Some l"
    and lid: "fst L = lead_id l"
    unfolding L_def by auto
  have leads1: "leads db1 = leads (snd L)"
    by (simp add: db1_def C_def findOrCreateConversation_others)
  have convs0: "conversationOf (fst L) userId (snd L) = conversationOf (fst L) userId db"
    by (rule conversationOf_cong) (simp add: L_def findOrCreateLead_others)
  have auto0: "conversations_autoIncrement (snd L) = conversations_autoIncrement db"
    by (simp add: L_def findOrCreateLead_others)
  have "conversationOf (fst L) userId (snd C) = Some c"
    unfolding C_def c_def by (rule findOrCreateConversation_finds)
  then have c: "conversationOf (fst L) userId db1 = Some c"
    by (simp add: conversationOf_def db1_def)
  have cid: "fst C = conv_id c"
    unfolding C_def c_def by (rule findOrCreateConversation_id)
  have leadFacts:
    "(case find (\<lambda>l. lead_phone l = ?phone) (leads db) of
        Some l0 \<Rightarrow>
          fst L = lead_id l0 \<and> map lead_id (leads db1) = map lead_id (leads db) \<and>
          map lead_phone (leads db1) = map lead_phone (leads db)
      | None \<Rightarrow> length (leads db1) = length (leads db) + 1)"
    unfolding leads1
    by (cases "find (\<lambda>l. lead_phone l = ?phone) (leads db)")
       (simp_all add: L_def findOrCreateLead_new findOrCreateLead_existing map_touched_leads)
  have count: "conv_unreadCount c =
       Some (case conversationOf (fst L) userId db of
               Some c0 \<Rightarrow> countOf (conv_unreadCount c0) + 1
             | None \<Rightarrow> 1)"
    unfolding c_def convs0
    by (cases "conversationOf (fst L) userId db") (simp_all add: bumped_def inboundConversation_def)
  have ids: "(case conversationOf (fst L) userId db of
        Some c0 \<Rightarrow> conv_id c = conv_id c0
      | None \<Rightarrow> conv_id c = conversations_autoIncrement db + 1)"
    unfolding c_def convs0
    by (cases "conversationOf (fst L) userId db")
       (simp_all add: bumped_def inboundConversation_def auto0)
  have msgs: "chatMessages db1 = chatMessages db @ [row]"
    by (simp add: db1_def C_def L_def findOrCreateConversation_others findOrCreateLead_others)
  have rowFacts: "msg_conversationId row = conv_id c" "msg_content row = messageText message"
    "msg_whatsappMessageId row = key_id (message_key message)"
    using cid by (simp_all add: row_def inboundChatMessage_def)
  from H l leadFacts c count ids msgs rowFacts show ?thesis
    unfolding leads1 [symmetric] lid by blast
qed


text \<open>
  Claim C5. Handling the same accepted message twice, at times \<open>now1\<close> and \<open>now2\<close>:
  the first call creates at most one lead and the second none (the lead of the phone
  is found); the conversation of that lead has its unread counter raised by each call
  (to 1 by the first when the call creates the conversation); and the chat messages
  gain two rows, both with the message's WhatsApp id and text and both in that
  conversation.
\<close>

theorem handleIncomingMessage_twice:
  assumes "accepts message jid"
  shows "\<exists>db1 db2 l c1 c2 row1 row2.
     handleIncomingMessage now1 userId message (Some db) = Some db1 \<and>
     handleIncomingMessage now2 userId message (Some db1) = Some db2 \<and>
     length (leads db1) \<le> length (leads db) + 1 \<and>
     map lead_id (leads db2) = map lead_id (leads db1) \<and>
     map lead_phone (leads db2) = map lead_phone (leads db1) \<and>
     find (\<lambda>l. lead_phone l = phoneNumberOf jid) (leads db1) = Some l \<and>
     conversationOf (lead_id l) userId db1 = Some c1 \<and>
     conversationOf (lead_id l) userId db2 = Some c2 \<and>
     conv_id c2 = conv_id c1 \<and>
     conv_unreadCount c1 =
       Some (case conversationOf (lead_id l) userId db of
               Some c0 \<Rightarrow> countOf (conv_unreadCount c0) + 1
             | None \<Rightarrow> 1) \<and>
     conv_unreadCount c2 = Some (countOf (conv_unreadCount c1) + 1) \<and>
     chatMessages db2 = chatMessages db @ [row1, row2] \<and>
     msg_whatsappMessageId row1 = key_id (message_key message) \<and>
     msg_whatsappMessageId row2 = key_id (message_key message) \<and>
     msg_content row1 = messageText message \<and>
     msg_content row2 = messageText message \<and>
     msg_conversationId row1 = conv_id c1 \<and>
     msg_conversationId row2 = conv_id c1"
proof -
  let ?P = "\<lambda>l. lead_phone l = phoneNumberOf jid"
  from handleIncomingMessage_once [OF assms, of now1 userId db]
  obtain db1 l c1 row1
    where H1: "handleIncomingMessage now1 userId message (Some db) = Some db1"
      and l: "find ?P (leads db1) = Some l"
      and leads1: "(case find ?P (leads db) of
          Some l0 \<Rightarrow>
            lead_id l = lead_id l0 \<and> map lead_id (leads db1) = map lead_id (leads db) \<and>
            map lead_phone (leads db1) = map lead_phone (leads db)
        | None \<Rightarrow> length (leads db1) = length (leads db) + 1)"
      and c1: "conversationOf (lead_id l) userId db1 = Some c1"
      and count1: "conv_unreadCount c1 =
          Some (case conversationOf (lead_id l) userId db of
                  Some c0 \<Rightarrow> countOf (conv_unreadCount c0) + 1
                | None \<Rightarrow> 1)"
      and msgs1: "chatMessages db1 = chatMessages db @ [row1]"
      and row1: "msg_conversationId row1 = conv_id c1" "msg_content row1 = messageText message"
                "msg_whatsappMessageId row1 = key_id (message_key message)"
    by (elim exE conjE) (rule that, assumption+)
  from handleIncomingMessage_once [OF assms, of now2 userId db1]
  obtain db2 l' c2 row2
    where H2: "handleIncomingMessage now2 userId message (Some db1) = Some db2"
      and l': "find ?P (leads db2) = Some l'"
      and leads2: "(case find ?P (leads db1) of
          Some l0 \<Rightarrow>
            lead_id l' = lead_id l0 \<and> map lead_id (leads db2) = map lead_id (leads db1) \<and>
            map lead_phone (leads db2) = map lead_phone (leads db1)
        | None \<Rightarrow> length (leads db2) = length (leads db1) + 1)"
      and c2: "conversationOf (lead_id l') userId db2 = Some c2"
      and count2: "conv_unreadCount c2 =
          Some (case conversationOf (lead_id l') userId db1 of
                  Some c0 \<Rightarrow> countOf (conv_unreadCount c0) + 1
                | None \<Rightarrow> 1)"
      and ids2: "(case conversationOf (lead_id l') userId db1 of
          Some c0 \<Rightarrow> conv_id c2 = conv_id c0
        | None \<Rightarrow> conv_id c2 = conversations_autoIncrement db1 + 1)"
      and msgs2: "chatMessages db2 = chatMessages db1 @ [row2]"
      and row2: "msg_conversationId row2 = conv_id c2" "msg_content row2 = messageText message"
                "msg_whatsappMessageId row2 = key_id (message_key message)"
    by (elim exE conjE) (rule that, assumption+)
  from leads2 l have same: "lead_id l' = lead_id l"
    and ids: "map lead_id (leads db2) = map lead_id (leads db1)"
    and phones: "map lead_phone (leads db2) = map lead_phone (leads db1)"
    by simp_all
  from leads1 have len: "length (leads db1) \<le> length (leads db) + 1"
  proof (cases "find ?P (leads db)")
    case None
    with leads1 show ?thesis by simp
  next
    case (Some l0)
    with leads1 have "length (map lead_id (leads db1)) = length (map lead_id (leads db))" by simp
    then show ?thesis by simp
  qed
  from c2 same have c2': "conversationOf (lead_id l) userId db2 = Some c2" by simp
  from count2 same c1 have count2': "conv_unreadCount c2 = Some (countOf (conv_unreadCount c1) + 1)"
    by simp
  from ids2 same c1 have cid: "conv_id c2 = conv_id c1" by simp
  from msgs1 msgs2 have msgs: "chatMessages db2 = chatMessages db @ [row1, row2]" by simp
  from row2(1) cid have row2c: "msg_conversationId row2 = conv_id c1" by simp
  from H1 H2 len ids phones l c1 c2' cid count1 count2' msgs row1(3) row2(3) row1(2) row2(2)
    row1(1) row2c
  show ?thesis by blast
qed

text \<open>The theorem at the empty database: one lead, the counter at 2, two message rows.\<close>

theorem handleIncomingMessage_twice_witness:
  "\<exists>db1 db2.
     handleIncomingMessage 100 3 exampleMessage (Some emptyDatabase) = Some db1 \<and>
     handleIncomingMessage 101 3 exampleMessage (Some db1) = Some db2 \<and>
     length (leads db1) \<le> 1 \<and>
     map lead_id (leads db2) = map lead_id (leads db1) \<and>
     (\<exists>l c1 c2 row1 row2.
        find (\<lambda>l. lead_phone l = ''+595981000000'') (leads db1) = Some l \<and>
        conversationOf (lead_id l) 3 db1 = Some c1 \<and>
        conversationOf (lead_id l) 3 db2 = Some c2 \<and>
        conv_unreadCount c1 = Some 1 \<and> conv_unreadCount c2 = Some 2 \<and>
        chatMessages db2 = [row1, row2] \<and>
        msg_whatsappMessageId row1 = Some ''3EB0A1'' \<and>
        msg_whatsappMessageId row2 = Some ''3EB0A1'')"
proof -
  have phone: "phoneNumberOf ''595981000000@s.whatsapp.net'' = ''+595981000000''"
    by (simp add: phoneNumberOf_def)
  have empty: "leads emptyDatabase = []" "chatMessages emptyDatabase = []"
    "conversations emptyDatabase = []"
    by (simp_all add: emptyDatabase_def)
  have key: "key_id (message_key exampleMessage) = Some ''3EB0A1''"
    by (simp add: exampleMessage_def)
  from handleIncomingMessage_twice [OF accepts_exampleMessage, of 100 3 emptyDatabase 101]
  obtain db1 db2 l c1 c2 row1 row2
    where "handleIncomingMessage 100 3 exampleMessage (Some emptyDatabase) = Some db1"
      and "handleIncomingMessage 101 3 exampleMessage (Some db1) = Some db2"
      and "length (leads db1) \<le> length (leads emptyDatabase) + 1"
      and "map lead_id (leads db2) = map lead_id (leads db1)"
      and "find (\<lambda>l. lead_phone l = ''+595981000000'') (leads db1) = Some l"
      and "conversationOf (lead_id l) 3 db1 = Some c1"
      and "conversationOf (lead_id l) 3 db2 = Some c2"
      and "conv_unreadCount c1 =
             Some (case conversationOf (lead_id l) 3 emptyDatabase of
                     Some c0 \<Rightarrow> countOf (conv_unreadCount c0) + 1
                   | None \<Rightarrow> 1)"
      and "conv_unreadCount c2 = Some (countOf (conv_unreadCount c1) + 1)"
      and "chatMessages db2 = chatMessages emptyDatabase @ [row1, row2]"
      and "msg_whatsappMessageId row1 = key_id (message_key exampleMessage)"
      and "msg_whatsappMessageId row2 = key_id (message_key exampleMessage)"
    unfolding phone by blast
  then show ?thesis
    unfolding key empty
    by (simp add: conversationOf_def empty countOf_def)
qed


section \<open>The \<^verbatim>\<open>campaigns.launch\<close> mutation\<close>

text \<open>
  \<^verbatim>\<open>campaigns.launch\<close> (the app router, src/unnamed/part_008). The recipients table has
  the unique key \<open>uq_campaign_lead (campaignId, leadId)\<close> of the migration in
  src/unnamed/part_012, which the loop's \<open>catch\<close> relies on. An insert that breaks the
  key throws the driver's error as the ORM presents it (\<open>thrown\<close>). An insert can also
  fail for a reason outside the table (a lost connection, a lock timeout): \<open>failure\<close>
  gives what the insert for a lead throws then, if anything. A failed insert leaves the
  table as it was.
\<close>

definition duplicateRecipient :: "nat \<Rightarrow> nat \<Rightarrow> sqlError" where
  "duplicateRecipient campaignId leadId =
     duplicateEntry (natToString campaignId @ ''-'' @ natToString leadId) ''uq_campaign_lead''"

definition insertCampaignRecipient ::
  "presentation \<Rightarrow> (nat \<Rightarrow> sqlError option) \<Rightarrow> campaignRecipient \<Rightarrow> database \<Rightarrow>
   (sqlError + unit) \<times> database" where
  "insertCampaignRecipient thrown failure row db =
     (case failure (recipient_leadId row) of
        Some err \<Rightarrow> (Inl err, db)
      | None \<Rightarrow>
          if \<exists>r \<in> set (campaignRecipients db).
               recipient_campaignId r = recipient_campaignId row \<and>
               recipient_leadId r = recipient_leadId row
          then (Inl (thrown (duplicateRecipient (recipient_campaignId row) (recipient_leadId row))),
                db)
          else
            (let newId = campaignRecipients_autoIncrement db + 1 in
             (Inr (),
              db\<lparr>campaignRecipients := campaignRecipients db @ [row\<lparr>recipient_id := newId\<rparr>],
                 campaignRecipients_autoIncrement := newId\<rparr>)))"

text \<open>
  The test of the \<open>catch\<close> block: the error is thrown again unless its code is
  \<open>ER_DUP_ENTRY\<close> or its message includes \<open>Duplicate\<close>.
\<close>

definition rethrown :: "sqlError \<Rightarrow> bool" where
  "rethrown err \<longleftrightarrow>
     err_code err \<noteq> Some ''ER_DUP_ENTRY'' \<and>
     \<not> (case err_message err of None \<Rightarrow> False | Some m \<Rightarrow> includes_str m ''Duplicate'')"

text \<open>The row that the loop inserts for a lead.\<close>

definition pendingRecipient :: "nat \<Rightarrow> lead \<Rightarrow> campaignRecipient" where
  "pendingRecipient campaignId lead =
     \<lparr>recipient_id = 0, recipient_campaignId = campaignId,
      recipient_leadId = lead_id lead, recipient_status = ''pending''\<rparr>"

text \<open>The loop over the audience, with \<open>insertedCount\<close>.\<close>

fun createRecipients ::
  "presentation \<Rightarrow> (nat \<Rightarrow> sqlError option) \<Rightarrow> nat \<Rightarrow> lead list \<Rightarrow> nat \<Rightarrow> database \<Rightarrow>
   (sqlError + nat) \<times> database" where
  "createRecipients thrown failure campaignId [] insertedCount db = (Inr insertedCount, db)"
| "createRecipients thrown failure campaignId (lead # audience) insertedCount db =
     (case insertCampaignRecipient thrown failure (pendingRecipient campaignId lead) db of
        (Inr _, db') \<Rightarrow>
          createRecipients thrown failure campaignId audience (insertedCount + 1) db'
      | (Inl err, db') \<Rightarrow>
          if rethrown err then (Inl err, db')
          else createRecipients thrown failure campaignId audience insertedCount db')"

record launchResult =
  launch_success :: bool
  launch_recipientsCount :: nat
  launch_alreadyLaunched :: bool
  launch_inserted :: "nat option"

text \<open>The audience: the leads of the configured stage, or all leads.\<close>

definition audienceOf :: "campaign \<Rightarrow> database \<Rightarrow> lead list" where
  "audienceOf c db =
     (case campaign_audienceConfig c of
        None \<Rightarrow> leads db
      | Some config \<Rightarrow>
          (case audience_pipelineStageId config of
             None \<Rightarrow> leads db
           | Some stageId \<Rightarrow>
               if stageId \<noteq> 0
               then filter (\<lambda>l. lead_pipelineStageId l = Some stageId) (leads db)
               else leads db))"

definition launch ::
  "presentation \<Rightarrow> (nat \<Rightarrow> sqlError option) \<Rightarrow> timestamp \<Rightarrow> nat \<Rightarrow> database \<Rightarrow>
   (exn + launchResult) \<times> database" where
  "launch thrown failure now campaignId db =
     (case find (\<lambda>c. campaign_id c = campaignId) (campaigns db) of
        None \<Rightarrow> (Inl (Error ''Campaign not found''), db)
      | Some c \<Rightarrow>
          if campaign_status c = ''scheduled'' \<or> campaign_status c = ''running'' then
            (Inr \<lparr>launch_success = True, launch_recipientsCount = campaign_totalRecipients c,
                  launch_alreadyLaunched = True, launch_inserted = None\<rparr>, db)
          else if campaign_status c \<noteq> ''draft'' then
            (Inl (Error (''Cannot launch campaign with status: '' @ campaign_status c)), db)
          else
            (let audience = audienceOf c db in
             if audience = [] then (Inl (Error ''No recipients found for campaign''), db)
             else
               (case createRecipients thrown failure campaignId audience 0 db of
                  (Inl err, db') \<Rightarrow> (Inl (SqlError err), db')
                | (Inr insertedCount, db') \<Rightarrow>
                    (Inr \<lparr>launch_success = True, launch_recipientsCount = length audience,
                          launch_alreadyLaunched = False, launch_inserted = Some insertedCount\<rparr>,
                     db'\<lparr>campaigns :=
                          map (\<lambda>x. if campaign_id x = campaignId
                                    then x\<lparr>campaign_status := ''scheduled'',
                                           campaign_totalRecipients := length audience,
                                           campaign_startedAt := Some now\<rparr>
                                    else x)
                              (campaigns db')\<rparr>))))"

text \<open>The mutation: \<open>getDb()\<close> gives the database or \<open>null\<close>.\<close>

definition campaigns_launch ::
  "presentation \<Rightarrow> (nat \<Rightarrow> sqlError option) \<Rightarrow> timestamp \<Rightarrow> nat \<Rightarrow> database option \<Rightarrow>
   (exn + launchResult) \<times> database option" where
  "campaigns_launch thrown failure now campaignId getDb =
     (case getDb of
        None \<Rightarrow> (Inl (Error ''DB error''), None)
      | Some db \<Rightarrow>
          (case launch thrown failure now campaignId db of (result, db') \<Rightarrow> (result, Some db')))"

subsection \<open>Recipients are unique per campaign and lead\<close>

definition recipientPairs :: "database \<Rightarrow> (nat \<times> nat) list" where
  "recipientPairs db =
     map (\<lambda>r. (recipient_campaignId r, recipient_leadId r)) (campaignRecipients db)"

text \<open>
  The driver's own error passes the test of the \<open>catch\<close> block, whatever the entry and
  the key.
\<close>

lemma rethrown_driverError: "\<not> rethrown (driverError (duplicateEntry entry key))"
  by (simp add: rethrown_def driverError_def duplicateEntry_def)

lemma in_recipientPairs:
  "(c, l) \<in> set (recipientPairs db) \<longleftrightarrow>
     (\<exists>r \<in> set (campaignRecipients db). recipient_campaignId r = c \<and> recipient_leadId r = l)"
  unfolding recipientPairs_def by force

lemma insertCampaignRecipient_cases:
  "insertCampaignRecipient thrown failure (pendingRecipient campaignId lead) db =
     (case failure (lead_id lead) of
        Some err \<Rightarrow> (Inl err, db)
      | None \<Rightarrow>
          if (campaignId, lead_id lead) \<in> set (recipientPairs db)
          then (Inl (thrown (duplicateRecipient campaignId (lead_id lead))), db)
          else (Inr (),
                db\<lparr>campaignRecipients :=
                     campaignRecipients db @
                       [(pendingRecipient campaignId lead)
                          \<lparr>recipient_id := campaignRecipients_autoIncrement db + 1\<rparr>],
                   campaignRecipients_autoIncrement := campaignRecipients_autoIncrement db + 1\<rparr>))"
  by (simp add: insertCampaignRecipient_def in_recipientPairs pendingRecipient_def Let_def
        split: option.splits)


lemma insertCampaignRecipient_frame:
  "campaigns (snd (insertCampaignRecipient thrown failure (pendingRecipient campaignId lead) db)) =
     campaigns db"
  "leads (snd (insertCampaignRecipient thrown failure (pendingRecipient campaignId lead) db)) =
     leads db"
  by (simp_all add: insertCampaignRecipient_cases split: option.splits)

lemma insertCampaignRecipient_grows:
  "\<exists>new. campaignRecipients
            (snd (insertCampaignRecipient thrown failure (pendingRecipient campaignId lead) db)) =
           campaignRecipients db @ new"
  by (simp add: insertCampaignRecipient_cases split: option.splits)

lemma insertCampaignRecipient_Inl:
  "fst (insertCampaignRecipient thrown failure (pendingRecipient campaignId lead) db) = Inl err \<Longrightarrow>
   snd (insertCampaignRecipient thrown failure (pendingRecipient campaignId lead) db) = db"
  by (simp add: insertCampaignRecipient_cases split: option.splits if_splits)

text \<open>An insert that nothing outside the table fails leaves the lead a recipient.\<close>

lemma insertCampaignRecipient_present:
  assumes "failure (lead_id lead) = None"
  shows "(campaignId, lead_id lead) \<in>
           set (recipientPairs
             (snd (insertCampaignRecipient thrown failure (pendingRecipient campaignId lead) db)))"
  using assms
  by (simp add: insertCampaignRecipient_cases) (simp add: recipientPairs_def pendingRecipient_def)

lemma insertCampaignRecipient_mono:
  "set (recipientPairs db) \<subseteq>
     set (recipientPairs
       (snd (insertCampaignRecipient thrown failure (pendingRecipient campaignId lead) db)))"
  by (auto simp add: insertCampaignRecipient_cases recipientPairs_def split: option.splits)

text \<open>One round of the loop: the database after it, and whether the loop goes on.\<close>

lemma createRecipients_Cons:
  "createRecipients thrown failure campaignId (lead # audience) n db =
     (let step = insertCampaignRecipient thrown failure (pendingRecipient campaignId lead) db
      in case fst step of
           Inr _ \<Rightarrow> createRecipients thrown failure campaignId audience (n + 1) (snd step)
         | Inl err \<Rightarrow>
             if rethrown err then (Inl err, snd step)
             else createRecipients thrown failure campaignId audience n (snd step))"
  by (simp add: Let_def split: prod.splits sum.splits)


lemma createRecipients_frame:
  "campaigns (snd (createRecipients thrown failure campaignId audience n db)) = campaigns db"
  "leads (snd (createRecipients thrown failure campaignId audience n db)) = leads db"
  by (induction audience arbitrary: n db)
     (simp_all add: createRecipients_Cons Let_def insertCampaignRecipient_frame
        split: sum.splits del: createRecipients.simps(2))

lemma createRecipients_grows:
  "\<exists>new. campaignRecipients (snd (createRecipients thrown failure campaignId audience n db)) =
           campaignRecipients db @ new"
proof (induction audience arbitrary: n db)
  case Nil
  then show ?case by simp
next
  case (Cons lead audience)
  let ?step = "insertCampaignRecipient thrown failure (pendingRecipient campaignId lead) db"
  obtain new1 where 1: "campaignRecipients (snd ?step) = campaignRecipients db @ new1"
    using insertCampaignRecipient_grows by blast
  have "\<exists>new. campaignRecipients
                 (snd (createRecipients thrown failure campaignId audience k (snd ?step))) =
           campaignRecipients db @ new" for k
    using Cons.IH [of k "snd ?step"] 1 by auto
  then show ?case
    using 1
    by (simp add: createRecipients_Cons Let_def split: sum.splits del: createRecipients.simps(2))
qed

text \<open>
  When the loop gets through the audience and no insert fails outside the table, every
  lead is a recipient, and no earlier pair is lost.
\<close>

lemma createRecipients_present:
  assumes "\<forall>l \<in> set audience. failure (lead_id l) = None"
      and "fst (createRecipients thrown failure campaignId audience n db) = Inr k"
  shows "(\<forall>l \<in> set audience.
            (campaignId, lead_id l) \<in>
              set (recipientPairs (snd (createRecipients thrown failure campaignId audience n db)))) \<and>
         set (recipientPairs db) \<subseteq>
           set (recipientPairs (snd (createRecipients thrown failure campaignId audience n db)))"
  using assms
proof (induction audience arbitrary: n db)
  case Nil
  then show ?case by simp
next
  case (Cons lead audience)
  let ?step = "insertCampaignRecipient thrown failure (pendingRecipient campaignId lead) db"
  from Cons.prems(1) have ok: "failure (lead_id lead) = None"
    and rest: "\<forall>l \<in> set audience. failure (lead_id l) = None"
    by simp_all
  have here: "(campaignId, lead_id lead) \<in> set (recipientPairs (snd ?step))"
    using ok by (rule insertCampaignRecipient_present)
  have mono: "set (recipientPairs db) \<subseteq> set (recipientPairs (snd ?step))"
    by (rule insertCampaignRecipient_mono)
  from Cons.prems(2) obtain m where
    go: "createRecipients thrown failure campaignId (lead # audience) n db =
           createRecipients thrown failure campaignId audience m (snd ?step)"
    by (cases "fst ?step")
       (auto simp add: createRecipients_Cons Let_def split: if_splits
          simp del: createRecipients.simps(2))
  from Cons.prems(2) have "fst (createRecipients thrown failure campaignId audience m (snd ?step)) = Inr k"
    unfolding go .
  from Cons.IH [OF rest this] here mono
  show ?case unfolding go by auto
qed

text \<open>
  The loop gets through the audience when no insert fails outside the table and no
  error of the unique key is one that the \<open>catch\<close> block throws again.
\<close>

lemma createRecipients_completes:
  assumes "\<forall>l \<in> set audience.
             failure (lead_id l) = None \<and>
             \<not> rethrown (thrown (duplicateRecipient campaignId (lead_id l)))"
  shows "\<exists>k. fst (createRecipients thrown failure campaignId audience n db) = Inr k"
  using assms
proof (induction audience arbitrary: n db)
  case Nil
  then show ?case by simp
next
  case (Cons lead audience)
  let ?step = "insertCampaignRecipient thrown failure (pendingRecipient campaignId lead) db"
  let ?n = "if (campaignId, lead_id lead) \<in> set (recipientPairs db) then n else n + 1"
  from Cons.prems have ok: "failure (lead_id lead) = None"
    and skip: "\<not> rethrown (thrown (duplicateRecipient campaignId (lead_id lead)))"
    and rest: "\<forall>l \<in> set audience.
                 failure (lead_id l) = None \<and>
                 \<not> rethrown (thrown (duplicateRecipient campaignId (lead_id l)))"
    by simp_all
  have go: "createRecipients thrown failure campaignId (lead # audience) n db =
              createRecipients thrown failure campaignId audience ?n (snd ?step)"
    using ok skip
    by (simp add: createRecipients_Cons Let_def insertCampaignRecipient_cases
          del: createRecipients.simps(2))
  from Cons.IH [OF rest, of ?n "snd ?step"] show ?case
    unfolding go .
qed

text \<open>The loop over a list in two parts.\<close>

lemma createRecipients_append:
  "fst (createRecipients thrown failure campaignId earlier n db) = Inr k \<Longrightarrow>
   createRecipients thrown failure campaignId (earlier @ later) n db =
     createRecipients thrown failure campaignId later k
       (snd (createRecipients thrown failure campaignId earlier n db))"
proof (induction earlier arbitrary: n db)
  case Nil
  then show ?case by simp
next
  case (Cons lead earlier)
  let ?step = "insertCampaignRecipient thrown failure (pendingRecipient campaignId lead) db"
  from Cons.prems obtain m where
    go: "createRecipients thrown failure campaignId (lead # ys) n db =
           createRecipients thrown failure campaignId ys m (snd ?step)" for ys
    by (cases "fst ?step")
       (auto simp add: createRecipients_Cons Let_def split: if_splits
          simp del: createRecipients.simps(2))
  from Cons.prems have "fst (createRecipients thrown failure campaignId earlier m (snd ?step)) = Inr k"
    unfolding go .
  from Cons.IH [OF this] show ?case
    unfolding append_Cons go .
qed

text \<open>The loop stops at the first insert whose error the \<open>catch\<close> block throws again.\<close>

lemma createRecipients_stops:
  assumes "fst (createRecipients thrown failure campaignId earlier n db) = Inr k"
      and "fst (insertCampaignRecipient thrown failure (pendingRecipient campaignId lead)
                  (snd (createRecipients thrown failure campaignId earlier n db))) = Inl err"
      and "rethrown err"
  shows "createRecipients thrown failure campaignId (earlier @ lead # later) n db =
           (Inl err, snd (createRecipients thrown failure campaignId earlier n db))"
proof -
  let ?pre = "snd (createRecipients thrown failure campaignId earlier n db)"
  from assms(2) have "snd (insertCampaignRecipient thrown failure
      (pendingRecipient campaignId lead) ?pre) = ?pre"
    by (rule insertCampaignRecipient_Inl)
  with assms(2,3)
  have "createRecipients thrown failure campaignId (lead # later) k ?pre = (Inl err, ?pre)"
    by (simp add: createRecipients_Cons Let_def del: createRecipients.simps(2))
  with createRecipients_append [OF assms(1), of "lead # later"] show ?thesis by simp
qed

lemma launch_draft:
  assumes "find (\<lambda>c. campaign_id c = campaignId) (campaigns db) = Some c"
      and "campaign_status c = ''draft''" and "audienceOf c db \<noteq> []"
  shows "launch thrown failure now campaignId db =
     (case createRecipients thrown failure campaignId (audienceOf c db) 0 db of
        (Inl err, db') \<Rightarrow> (Inl (SqlError err), db')
      | (Inr insertedCount, db') \<Rightarrow>
          (Inr \<lparr>launch_success = True, launch_recipientsCount = length (audienceOf c db),
                launch_alreadyLaunched = False, launch_inserted = Some insertedCount\<rparr>,
           db'\<lparr>campaigns :=
                map (\<lambda>x. if campaign_id x = campaignId
                          then x\<lparr>campaign_status := ''scheduled'',
                                 campaign_totalRecipients := length (audienceOf c db),
                                 campaign_startedAt := Some now\<rparr>
                          else x)
                    (campaigns db')\<rparr>))"
  using assms by (simp add: launch_def Let_def)


text \<open>The launch of a draft campaign whose loop stops at a lead.\<close>

lemma launch_stops:
  assumes "find (\<lambda>c. campaign_id c = campaignId) (campaigns db) = Some c"
      and "campaign_status c = ''draft''"
      and "audienceOf c db = earlier @ lead # later"
      and "fst (createRecipients thrown failure campaignId earlier 0 db) = Inr k"
      and "fst (insertCampaignRecipient thrown failure (pendingRecipient campaignId lead)
                  (snd (createRecipients thrown failure campaignId earlier 0 db))) = Inl err"
      and "rethrown err"
  shows "launch thrown failure now campaignId db =
           (Inl (SqlError err), snd (createRecipients thrown failure campaignId earlier 0 db))"
  using assms(1,2,3) createRecipients_stops [OF assms(4,5,6), of later]
  by (simp add: launch_draft)


text \<open>
  Claim C7. When the insert for one lead of the audience fails with an error that the
  \<open>catch\<close> block throws again (neither the code \<open>ER_DUP_ENTRY\<close> nor a message with
  \<open>Duplicate\<close>), the inserts for the earlier leads did not fail outside the table and
  the loop got through them, the call throws that error; the recipients table is the
  one the loop had reached after the earlier leads, so each of them is a recipient and
  no row of the table is removed; and the campaigns table is unchanged, so the campaign
  is still a draft. This holds however the ORM presents an error of the unique key;
  when it passes the driver's error on as it is, the loop gets through the earlier
  leads whenever their inserts do not fail outside the table
  (lemmas \<open>createRecipients_completes\<close> and \<open>rethrown_driverError\<close>).
\<close>

theorem launch_not_atomic:
  assumes "find (\<lambda>c. campaign_id c = campaignId) (campaigns db) = Some c"
      and "campaign_status c = ''draft''"
      and "audienceOf c db = earlier @ lead # later"
      and "\<forall>l \<in> set earlier. failure (lead_id l) = None"
      and "fst (createRecipients thrown failure campaignId earlier 0 db) = Inr k"
      and "failure (lead_id lead) = Some err"
      and "rethrown err"
  shows "fst (launch thrown failure now campaignId db) = Inl (SqlError err) \<and>
         campaigns (snd (launch thrown failure now campaignId db)) = campaigns db \<and>
         campaignRecipients (snd (launch thrown failure now campaignId db)) =
           campaignRecipients (snd (createRecipients thrown failure campaignId earlier 0 db)) \<and>
         (\<forall>l \<in> set earlier.
            (campaignId, lead_id l) \<in>
              set (recipientPairs (snd (launch thrown failure now campaignId db)))) \<and>
         (\<exists>new. campaignRecipients (snd (launch thrown failure now campaignId db)) =
                  campaignRecipients db @ new)"
proof -
  let ?pre = "createRecipients thrown failure campaignId earlier 0 db"
  from assms(6)
  have "fst (insertCampaignRecipient thrown failure (pendingRecipient campaignId lead) (snd ?pre)) =
          Inl err"
    by (simp add: insertCampaignRecipient_cases)
  from launch_stops [OF assms(1,2,3,5) this assms(7)]
  have L: "launch thrown failure now campaignId db = (Inl (SqlError err), snd ?pre)" .
  from createRecipients_present [OF assms(4,5)]
  have present: "\<forall>l \<in> set earlier. (campaignId, lead_id l) \<in> set (recipientPairs (snd ?pre))"
    by blast
  from createRecipients_grows [of thrown failure campaignId earlier 0 db]
  obtain new where "campaignRecipients (snd ?pre) = campaignRecipients db @ new" by blast
  with L present show ?thesis
    by (simp add: createRecipients_frame)
qed

text \<open>
  A database with three leads, a draft campaign for all leads, and a recipient row
  that the campaign already has for the second lead.
\<close>

definition exampleLead :: "nat \<Rightarrow> string \<Rightarrow> lead" where
  "exampleLead i phone =
     \<lparr>lead_id = i, lead_name = ''Lead'', lead_phone = phone, lead_email = None,
      lead_country = ''Paraguay'', lead_source = None, lead_notes = None,
      lead_customFields = None, lead_value = None, lead_commission = None,
      lead_assignedToId = None, lead_whatsappNumberId = None, lead_pipelineStageId = None,
      lead_kanbanOrder = 0, lead_createdAt = None, lead_updatedAt = None,
      lead_lastContactedAt = None\<rparr>"

definition campaignDatabase :: database where
  "campaignDatabase =
     emptyDatabase
       \<lparr>leads := [exampleLead 4 ''+595981000001'', exampleLead 5 ''+595981000002'',
                  exampleLead 6 ''+595981000003''],
        leads_autoIncrement := 6,
        campaigns :=
          [\<lparr>campaign_id = 7, campaign_status = ''draft'', campaign_totalRecipients = 0,
            campaign_audienceConfig = None, campaign_startedAt = None\<rparr>],
        campaignRecipients :=
          [\<lparr>recipient_id = 12, recipient_campaignId = 7, recipient_leadId = 5,
            recipient_status = ''pending''\<rparr>],
        campaignRecipients_autoIncrement := 12\<rparr>"

text \<open>The error of a connection that was reset.\<close>

definition connectionReset :: sqlError where
  "connectionReset = \<lparr>err_code = Some ''ECONNRESET'', err_message = Some ''read ECONNRESET''\<rparr>"


lemma campaignDatabase_simps:
  "find (\<lambda>c. campaign_id c = 7) (campaigns campaignDatabase) =
     Some \<lparr>campaign_id = 7, campaign_status = ''draft'', campaign_totalRecipients = 0,
           campaign_audienceConfig = None, campaign_startedAt = None\<rparr>"
  "audienceOf \<lparr>campaign_id = 7, campaign_status = ''draft'', campaign_totalRecipients = 0,
           campaign_audienceConfig = None, campaign_startedAt = None\<rparr> campaignDatabase =
     [exampleLead 4 ''+595981000001'', exampleLead 5 ''+595981000002'',
      exampleLead 6 ''+595981000003'']"
  "recipientPairs campaignDatabase = [(7, 5)]"
  by (simp_all add: campaignDatabase_def emptyDatabase_def audienceOf_def recipientPairs_def)

lemma lead_id_exampleLead: "lead_id (exampleLead i phone) = i"
  by (simp add: exampleLead_def)



lemma rethrown_duplicateRecipient: "\<not> rethrown (driverError (duplicateRecipient c l))"
  by (simp add: duplicateRecipient_def rethrown_driverError)



text \<open>
  The theorem at \<open>campaignDatabase\<close> when the connection is reset at the insert for the
  third lead and the driver's error is passed on as it is: the first two leads are
  recipients and the campaign is unchanged.
\<close>

theorem launch_not_atomic_witness:
  "fst (launch driverError (\<lambda>i. if i = 6 then Some connectionReset else None) 50 7
          campaignDatabase) =
     Inl (SqlError connectionReset) \<and>
   campaigns (snd (launch driverError (\<lambda>i. if i = 6 then Some connectionReset else None) 50 7
                     campaignDatabase)) =
     campaigns campaignDatabase \<and>
   (7, 4) \<in> set (recipientPairs
       (snd (launch driverError (\<lambda>i. if i = 6 then Some connectionReset else None) 50 7
               campaignDatabase))) \<and>
   (7, 5) \<in> set (recipientPairs
       (snd (launch driverError (\<lambda>i. if i = 6 then Some connectionReset else None) 50 7
               campaignDatabase)))"
proof -
  let ?failure = "\<lambda>i::nat. if i = 6 then Some connectionReset else None"
  let ?earlier = "[exampleLead 4 ''+595981000001'', exampleLead 5 ''+595981000002'']"
  have r: "rethrown connectionReset"
    by (simp add: rethrown_def connectionReset_def)
  have a: "audienceOf \<lparr>campaign_id = 7, campaign_status = ''draft'', campaign_totalRecipients = 0,
           campaign_audienceConfig = None, campaign_startedAt = None\<rparr> campaignDatabase =
     ?earlier @ exampleLead 6 ''+595981000003'' # []"
    by (simp add: campaignDatabase_simps)
  have e: "\<forall>l \<in> set ?earlier. ?failure (lead_id l) = None"
    by (simp add: lead_id_exampleLead)
  have "\<forall>l \<in> set ?earlier.
          ?failure (lead_id l) = None \<and> \<not> rethrown (driverError (duplicateRecipient 7 (lead_id l)))"
    by (simp add: lead_id_exampleLead rethrown_duplicateRecipient)
  from createRecipients_completes [OF this, of 0 campaignDatabase]
  obtain k where k: "fst (createRecipients driverError ?failure 7 ?earlier 0 campaignDatabase) = Inr k"
    by blast
  have f: "?failure (lead_id (exampleLead 6 ''+595981000003'')) = Some connectionReset"
    by (simp add: lead_id_exampleLead)
  have s: "campaign_status \<lparr>campaign_id = 7, campaign_status = ''draft'',
      campaign_totalRecipients = 0, campaign_audienceConfig = None,
      campaign_startedAt = None\<rparr> = ''draft''"
    by simp
  note stopped = launch_not_atomic [OF campaignDatabase_simps(1) s a e k f r, of 50]
  let ?after = "snd (launch driverError ?failure 50 7 campaignDatabase)"
  from stopped
  have 1: "fst (launch driverError ?failure 50 7 campaignDatabase) = Inl (SqlError connectionReset)"
    and 2: "campaigns ?after = campaigns campaignDatabase"
    and 3: "\<forall>l \<in> set ?earlier. (7, lead_id l) \<in> set (recipientPairs ?after)"
    by blast+
  from 3 have "(7, 4) \<in> set (recipientPairs ?after)" "(7, 5) \<in> set (recipientPairs ?after)"
    by (simp_all add: lead_id_exampleLead)
  with 1 2 show ?thesis by blast
qed


section \<open>The Baileys session's connection handler\<close>

text \<open>
  The \<open>connection.update\<close> listener that \<^verbatim>\<open>BaileysService.initializeSession\<close> registers
  (server/services/baileys.ts). The service's state is the \<open>connections\<close> map and the
  session directories on disk; what the listener does beyond that is the list of its
  calls, in order: the two callbacks, the call of \<open>initializeSession\<close> that reconnects
  (started and not awaited), and the removal of the session directory.
  \<open>DisconnectReason.loggedOut\<close> is a constant of the Baileys library and a parameter
  here.
\<close>

datatype status = Connecting | Connected | Disconnected | QrReady

record connectionState =
  conn_status :: status
  conn_qr :: "string option"
  conn_socket :: "nat option"

record service =
  connections :: "nat \<rightharpoonup> connectionState"
  sessionDirs :: "nat set"

datatype connection = Close | Open | ConnectingUpdate

text \<open>
  The fields of the update that the listener reads; \<open>update_statusCode\<close> is
  \<open>lastDisconnect?.error?.output?.statusCode\<close>.
\<close>

record connectionUpdate =
  update_connection :: "connection option"
  update_statusCode :: "nat option"
  update_qr :: "string option"

datatype call =
    OnQrUpdate string
  | OnStatusUpdate status
  | InitializeSession nat
  | RemoveSessionDir nat

text \<open>\<open>{ ...connections.get(userId)!, status, qr }\<close>: the entry's socket is kept.\<close>

definition withStatus :: "status \<Rightarrow> string option \<Rightarrow> connectionState option \<Rightarrow> connectionState" where
  "withStatus s q entry =
     (case entry of
        None \<Rightarrow> \<lparr>conn_status = s, conn_qr = q, conn_socket = None\<rparr>
      | Some c \<Rightarrow> c\<lparr>conn_status := s, conn_qr := q\<rparr>)"

definition onQr :: "nat \<Rightarrow> connectionUpdate \<Rightarrow> service \<Rightarrow> service \<times> call list" where
  "onQr userId update svc =
     (case update_qr update of
        None \<Rightarrow> (svc, [])
      | Some qr \<Rightarrow>
          if qr = [] then (svc, [])
          else
            (svc\<lparr>connections :=
                   (connections svc)(userId \<mapsto> withStatus QrReady (Some qr) (connections svc userId))\<rparr>,
             [OnQrUpdate qr, OnStatusUpdate QrReady]))"

definition onConnectionUpdate ::
  "nat \<Rightarrow> nat \<Rightarrow> connectionUpdate \<Rightarrow> service \<Rightarrow> service \<times> call list" where
  "onConnectionUpdate loggedOut userId update svc =
     (let (svc1, calls1) = onQr userId update svc in
      case update_connection update of
        Some Close \<Rightarrow>
          (let shouldReconnect = (update_statusCode update \<noteq> Some loggedOut);
               svc2 = svc1\<lparr>connections :=
                             (connections svc1)(userId \<mapsto>
                                \<lparr>conn_status = Disconnected, conn_qr = None, conn_socket = None\<rparr>)\<rparr>;
               calls2 = calls1 @ [OnStatusUpdate Disconnected]
           in if shouldReconnect then (svc2, calls2 @ [InitializeSession userId])
              else if userId \<in> sessionDirs svc2
                   then (svc2\<lparr>sessionDirs := sessionDirs svc2 - {userId}\<rparr>,
                         calls2 @ [RemoveSessionDir userId])
                   else (svc2, calls2))
      | Some Open \<Rightarrow>
          (svc1\<lparr>connections :=
                  (connections svc1)(userId \<mapsto> withStatus Connected None (connections svc1 userId))\<rparr>,
           calls1 @ [OnStatusUpdate Connected])
      | _ \<Rightarrow> (svc1, calls1))"

lemma onQr_calls: "InitializeSession i \<notin> set (snd (onQr userId update svc))"
  by (simp add: onQr_def split: option.splits)

lemma onQr_sessionDirs: "sessionDirs (fst (onQr userId update svc)) = sessionDirs svc"
  by (simp add: onQr_def split: option.splits)

text \<open>
  Claim C4, as the code has it. On a close event the listener sets the connection to
  disconnected, reports it, and then calls \<open>initializeSession\<close> again at once (the
  call follows the status callback, with no timer in between) if and only if the
  status code of the disconnect error is not \<open>DisconnectReason.loggedOut\<close>. After a
  logout it does not reconnect, and the session directory is gone.
\<close>

theorem reconnect_unless_logged_out:
  "update_connection update = Some Close \<longrightarrow>
     (InitializeSession userId \<in> set (snd (onConnectionUpdate loggedOut userId update svc))
        \<longleftrightarrow> update_statusCode update \<noteq> Some loggedOut) \<and>
     (update_statusCode update \<noteq> Some loggedOut \<longrightarrow>
        snd (onConnectionUpdate loggedOut userId update svc) =
          snd (onQr userId update svc) @ [OnStatusUpdate Disconnected, InitializeSession userId] \<and>
        sessionDirs (fst (onConnectionUpdate loggedOut userId update svc)) = sessionDirs svc) \<and>
     (update_statusCode update = Some loggedOut \<longrightarrow>
        userId \<notin> sessionDirs (fst (onConnectionUpdate loggedOut userId update svc))) \<and>
     connections (fst (onConnectionUpdate loggedOut userId update svc)) userId =
       Some \<lparr>conn_status = Disconnected, conn_qr = None, conn_socket = None\<rparr>"
  using onQr_calls [of userId userId update svc] onQr_sessionDirs [of userId update svc]
  by (cases "onQr userId update svc")
     (auto simp add: onConnectionUpdate_def Let_def)

text \<open>A service with one connected session, for user 5, and its directory on disk.\<close>

definition exampleService :: service where
  "exampleService =
     \<lparr>connections = [5 \<mapsto> \<lparr>conn_status = Connected, conn_qr = None, conn_socket = Some 9\<rparr>],
      sessionDirs = {5}\<rparr>"

text \<open>
  The theorem at \<open>exampleService\<close>, with 401 for \<open>DisconnectReason.loggedOut\<close>: a close
  with status code 428 reconnects, a close with status code 401 does not.
\<close>

theorem reconnect_unless_logged_out_witness:
  "InitializeSession 5 \<in> set (snd (onConnectionUpdate 401 5
       \<lparr>update_connection = Some Close, update_statusCode = Some 428, update_qr = None\<rparr>
       exampleService)) \<and>
   InitializeSession 5 \<notin> set (snd (onConnectionUpdate 401 5
       \<lparr>update_connection = Some Close, update_statusCode = Some 401, update_qr = None\<rparr>
       exampleService)) \<and>
   5 \<notin> sessionDirs (fst (onConnectionUpdate 401 5
       \<lparr>update_connection = Some Close, update_statusCode = Some 401, update_qr = None\<rparr>
       exampleService))"
  using reconnect_unless_logged_out [of
      "\<lparr>update_connection = Some Close, update_statusCode = Some 428, update_qr = None\<rparr>"
      5 401 exampleService]
    reconnect_unless_logged_out [of
      "\<lparr>update_connection = Some Close, update_statusCode = Some 401, update_qr = None\<rparr>"
      5 401 exampleService]
  by simp

text \<open>
  Claim C4 as the specification words it says that every close event is followed by
  a reconnection attempt, whatever the disconnect reason. After a logout the listener
  makes two calls, the status callback and the removal of the session directory, and
  \<open>initializeSession\<close> is not among them.
\<close>

theorem no_reconnect_after_logout:
  "snd (onConnectionUpdate 401 5
          \<lparr>update_connection = Some Close, update_statusCode = Some 401, update_qr = None\<rparr>
          exampleService) =
     [OnStatusUpdate Disconnected, RemoveSessionDir 5]"
  by (simp add: onConnectionUpdate_def onQr_def exampleService_def Let_def)


end
